theory Spec2Isabelle
  imports Main
begin

section \<open>The dispatch engine of the golog Logger\<close>

text \<open>
  The theory embeds \<^verbatim>\<open>vendor/github.com/kataras/golog/logger.go\<close>: the level filter,
  the handler chain, the pooled log records, the line formatter and the registry of child
  loggers. Go objects reached through pointers (\<^verbatim>\<open>*Logger\<close>, \<^verbatim>\<open>*pio.Printer\<close>,
  \<^verbatim>\<open>*loggerMap\<close>) live in stores indexed by address; a method with a pointer receiver
  takes the receiver's address and the state and returns the new state. A run-time panic
  of the Go code is the left injection of the result.

  The functions are those of one goroutine running alone; the interleaving of two callers
  of \<^verbatim>\<open>getOrAdd\<close> is modelled apart, by steps. \<^verbatim>\<open>Scan\<close>, \<^verbatim>\<open>SetLevel\<close>,
  \<^verbatim>\<open>SetTimeFormat\<close>, \<^verbatim>\<open>Handle\<close> and the methods that only forward to the printer or
  wrap an external logger in a handler are left out: no property below depends on them.
  A handler chain is the list of the handlers in the order of the slice.
\<close>

subsection \<open>Stores and failures\<close>

type_synonym addr = nat

text \<open>
  A store is the list of the objects allocated so far: the address of an object is its
  position, allocation appends, and an address at or beyond the end designates no object
  (Go's \<^verbatim>\<open>nil\<close>).
\<close>

definition deref :: "'a list \<Rightarrow> addr \<Rightarrow> 'a option" where
  "deref store a = (if a < length store then Some (store ! a) else None)"

datatype failure =
    NilDereference
  | IndexOutOfRange
  | Deadlock

subsection \<open>Levels\<close>

text \<open>
  \<^verbatim>\<open>Level\<close> is an integer severity that \<^verbatim>\<open>print\<close> compares with \<^verbatim>\<open>>=\<close>.
  Its declaration and the five named tiers are in \<^verbatim>\<open>level.go\<close>, which is not among the
  sources. Modelled from the spec: the tiers are ordered
  \<^verbatim>\<open>Disabled < Error < Warn < Info < Debug\<close>, the disabled tier being the smallest value
  of the type.
\<close>

type_synonym Level = nat

definition DisableLevel :: Level where
  "DisableLevel = 0"

definition ErrorLevel :: Level where
  "ErrorLevel = 1"

definition WarnLevel :: Level where
  "WarnLevel = 2"

definition InfoLevel :: Level where
  "InfoLevel = 3"

definition DebugLevel :: Level where
  "DebugLevel = 4"

subsection \<open>Records of the data model\<close>

text \<open>An instant of the wall clock, as \<^verbatim>\<open>time.Now()\<close> returns it.\<close>

type_synonym Time = nat

text \<open>
  The fields of \<^verbatim>\<open>Log\<close> that \<^verbatim>\<open>logger.go\<close> reads and writes. \<^verbatim>\<open>Logger\<close> is the
  back-reference to the owning logger.
\<close>

record Log =
  Logger :: addr
  NewLine :: bool
  Time :: Time
  Level :: Level
  Message :: string

text \<open>
  A handler receives the record and may act on the world outside the logger (type
  \<^typ>\<open>'w\<close>: another sink, a counter, a trace); it answers whether it handled the record.
  It reads the record and leaves it as it is, and it does not reach the loggers, as the
  record's contract in the data model of the specification requires.
\<close>

type_synonym 'w Handler = "Log \<Rightarrow> 'w \<Rightarrow> bool \<times> 'w"

text \<open>
  The struct \<^verbatim>\<open>Logger\<close>. \<^verbatim>\<open>mu\<close> tells whether the mutex is held and \<^verbatim>\<open>once\<close>
  whether the one-shot guard has fired; \<^verbatim>\<open>logs\<close> is the idle set of the record pool.
\<close>

record 'w Logger =
  Prefix :: string
  Level :: Level
  TimeFormat :: string
  mu :: bool
  Printer :: addr
  handlers :: "'w Handler list"
  once :: bool
  logs :: "Log list"
  children :: addr

text \<open>
  The struct \<^verbatim>\<open>loggerMap\<close>. Its read/write lock guards each access to \<^verbatim>\<open>Items\<close>; a
  guarded section is one atomic step of the model.
\<close>

record loggerMap =
  Items :: "string \<rightharpoonup> addr"

text \<open>
  What reaches the sink. Modelled from the spec: \<^verbatim>\<open>pio.Printer\<close> is not among the sources;
  it is the Sink capability with the two distinct operations \<^verbatim>\<open>write(bytes)\<close> and
  \<^verbatim>\<open>writeLine(bytes)\<close>. A printer is its colour capability and the sequence of
  operations it received.
\<close>

datatype emission =
    Write string
  | WriteLine string

record Printer =
  IsTerminal :: bool
  Output :: "emission list"

record 'w state =
  loggers :: "'w Logger list"
  printers :: "Printer list"
  maps :: "loggerMap list"
  clock :: Time
  world :: 'w

text \<open>
  Library functions the code calls and the sources do not define: \<^verbatim>\<open>fmt.Sprint\<close>,
  \<^verbatim>\<open>fmt.Sprintf\<close>, \<^verbatim>\<open>time.Time.Format\<close> and the colouring of a level tag for a
  terminal. They are parameters of the model. An operand of the variadic print methods is
  a string or any other value.
\<close>

datatype 'v operand =
    StringVal string
  | OtherVal 'v

record 'v env =
  fmt_Sprint :: "'v operand list \<Rightarrow> string"
  fmt_Sprintf :: "string \<Rightarrow> 'v operand list \<Rightarrow> string"
  time_Format :: "Time \<Rightarrow> string \<Rightarrow> string"
  colorize :: "Level \<Rightarrow> string \<Rightarrow> string"

subsection \<open>The record pool\<close>

text \<open>
  \<^verbatim>\<open>sync.Pool\<close> with no \<^verbatim>\<open>New\<close> function: \<^verbatim>\<open>Get\<close> hands out an idle record or
  nothing, \<^verbatim>\<open>Put\<close> adds one to the idle set. The pool promises no order; the model
  hands out the record released last, and the properties of an acquired record are
  proved for every content of the idle set.
\<close>

definition pool_Get :: "Log list \<Rightarrow> Log option \<times> Log list" where
  "pool_Get idle = (case idle of [] \<Rightarrow> (None, []) | x # rest \<Rightarrow> (Some x, rest))"

definition pool_Put :: "Log \<Rightarrow> Log list \<Rightarrow> Log list" where
  "pool_Put x idle = x # idle"

text \<open>
  \<^verbatim>\<open>acquireLog\<close>: the receiver is given by its address \<open>self\<close> and its value; \<open>now\<close> is
  the reading of \<^verbatim>\<open>time.Now()\<close>. A record built on a pool miss has Go's zero values in
  every field but \<^verbatim>\<open>Logger\<close>.
\<close>

definition acquireLog ::
  "addr \<Rightarrow> Time \<Rightarrow> Level \<Rightarrow> string \<Rightarrow> bool \<Rightarrow> 'w Logger \<Rightarrow> Log \<times> 'w Logger" where
  "acquireLog self now level msg withPrintln l =
     (case pool_Get (logs l) of
        (got, idle) \<Rightarrow>
          let log = (case got of
                       None \<Rightarrow> \<lparr>Logger = self, NewLine = False, Time = 0, Level = 0, Message = []\<rparr>
                     | Some r \<Rightarrow> r);
              log = log\<lparr>NewLine := withPrintln\<rparr>;
              log = log\<lparr>Time := now\<rparr>;
              log = log\<lparr>Log.Level := level\<rparr>;
              log = log\<lparr>Message := msg\<rparr>
          in (log, l\<lparr>logs := idle\<rparr>))"

definition releaseLog :: "Log \<Rightarrow> 'w Logger \<Rightarrow> 'w Logger" where
  "releaseLog log l = l\<lparr>logs := pool_Put log (logs l)\<rparr>"

subsection \<open>The handler chain\<close>

text \<open>The loop of \<^verbatim>\<open>handled\<close> over the handlers, in slice order.\<close>

fun handled_range :: "'w Handler list \<Rightarrow> Log \<Rightarrow> 'w \<Rightarrow> bool \<times> 'w" where
  "handled_range [] log w = (False, w)"
| "handled_range (h # hs) log w =
     (case h log w of
        (True, w') \<Rightarrow> (True, w')
      | (False, w') \<Rightarrow> handled_range hs log w')"

definition handled :: "'w Logger \<Rightarrow> Log \<Rightarrow> 'w \<Rightarrow> bool \<times> 'w" where
  "handled l log w = handled_range (handlers l) log w"

subsection \<open>The formatter\<close>

text \<open>
  Modelled from the spec: \<^verbatim>\<open>GetTextForLevel\<close> is in \<^verbatim>\<open>level.go\<close>, which is not among
  the sources. It yields the short tag of a tier, \<^verbatim>\<open>ERRO\<close>, \<^verbatim>\<open>WARN\<close>, \<^verbatim>\<open>INFO\<close> or
  \<^verbatim>\<open>DBUG\<close>, styled when the destination is colour-capable, and the empty tag for the
  level-less tier (and for a value outside the closed set of tiers).
\<close>

definition levelTag :: "Level \<Rightarrow> string" where
  "levelTag level =
     (if level = ErrorLevel then ''ERRO''
      else if level = WarnLevel then ''WARN''
      else if level = InfoLevel then ''INFO''
      else if level = DebugLevel then ''DBUG''
      else [])"

definition GetTextForLevel :: "'v env \<Rightarrow> Level \<Rightarrow> bool \<Rightarrow> string" where
  "GetTextForLevel env level enableColor =
     (if levelTag level = [] then []
      else if enableColor then colorize env level (levelTag level)
      else levelTag level)"

text \<open>
  Modelled from the spec: \<^verbatim>\<open>Log.FormatTime\<close> is in \<^verbatim>\<open>log.go\<close>, which is not among the
  sources. The timestamp is omitted when the owning logger's \<^verbatim>\<open>TimeFormat\<close> is empty;
  otherwise it is the record's time in that format.
\<close>

definition FormatTime :: "'v env \<Rightarrow> 'w Logger \<Rightarrow> Log \<Rightarrow> string" where
  "FormatTime env owner l =
     (if TimeFormat owner = [] then [] else time_Format env (Time l) (TimeFormat owner))"

text \<open>
  \<^verbatim>\<open>logHijacker\<close>, for a value that is a \<^verbatim>\<open>*Log\<close> (the only values \<^verbatim>\<open>print\<close> hands to
  the printer): the bytes it stores in the printer's context. The owning logger is read
  through the record's back-reference.
\<close>

definition logHijacker :: "'v env \<Rightarrow> 'w state \<Rightarrow> Printer \<Rightarrow> Log \<Rightarrow> failure + string" where
  "logHijacker env st printer l =
     (case deref (loggers st) (Logger l) of
        None \<Rightarrow> Inl NilDereference
      | Some owner \<Rightarrow>
          let line = GetTextForLevel env (Log.Level l) (IsTerminal printer);
              line = (if line \<noteq> [] then line @ '' '' else line);
              t = FormatTime env owner l;
              line = (if t \<noteq> [] then line @ t @ '' '' else line);
              line = line @ Message l;
              pref = Prefix owner;
              b = (if length pref > 0 then pref @ line else line)
          in Inr b)"

text \<open>
  Modelled from the spec: \<^verbatim>\<open>Printer.Print\<close> and \<^verbatim>\<open>Printer.Println\<close> of \<^verbatim>\<open>pio\<close>, for
  the printer that \<^verbatim>\<open>New\<close> builds (direct output, \<^verbatim>\<open>logHijacker\<close> installed): the
  hijacker renders the value and the sink receives the bytes through its plain write or
  through its write-with-newline operation.
\<close>

definition Printer_Print :: "'v env \<Rightarrow> addr \<Rightarrow> Log \<Rightarrow> 'w state \<Rightarrow> failure + 'w state" where
  "Printer_Print env p v st =
     (case deref (printers st) p of
        None \<Rightarrow> Inl NilDereference
      | Some printer \<Rightarrow>
          (case logHijacker env st printer v of
             Inl e \<Rightarrow> Inl e
           | Inr b \<Rightarrow>
               Inr (st\<lparr>printers := (printers st)[p := printer\<lparr>Output := Output printer @ [Write b]\<rparr>]\<rparr>)))"

definition Printer_Println :: "'v env \<Rightarrow> addr \<Rightarrow> Log \<Rightarrow> 'w state \<Rightarrow> failure + 'w state" where
  "Printer_Println env p v st =
     (case deref (printers st) p of
        None \<Rightarrow> Inl NilDereference
      | Some printer \<Rightarrow>
          (case logHijacker env st printer v of
             Inl e \<Rightarrow> Inl e
           | Inr b \<Rightarrow>
               Inr (st\<lparr>printers := (printers st)[p := printer\<lparr>Output := Output printer @ [WriteLine b]\<rparr>]\<rparr>)))"

subsection \<open>Dispatch\<close>

text \<open>
  \<^verbatim>\<open>print\<close>. The handlers run on the world; the pool of the receiver is written back
  when the record is acquired and when it is released.
\<close>

definition print ::
  "'v env \<Rightarrow> addr \<Rightarrow> Level \<Rightarrow> string \<Rightarrow> bool \<Rightarrow> 'w state \<Rightarrow> failure + 'w state" where
  "print env self level msg newLine st =
     (case deref (loggers st) self of
        None \<Rightarrow> Inl NilDereference
      | Some l \<Rightarrow>
          if Logger.Level l \<ge> level then
            (case acquireLog self (clock st) level msg newLine l of
               (log, l1) \<Rightarrow>
                 (case handled l1 log (world st) of
                    (h, w) \<Rightarrow>
                      let st1 = st\<lparr>loggers := (loggers st)[self := l1], world := w\<rparr> in
                      (case (if \<not> h then
                               (if newLine then Printer_Println env (Printer l1) log st1
                                else Printer_Print env (Printer l1) log st1)
                             else Inr st1) of
                         Inl e \<Rightarrow> Inl e
                       | Inr st2 \<Rightarrow>
                           Inr (st2\<lparr>loggers := (loggers st2)[self := releaseLog log l1]\<rparr>))))
          else Inr st)"

definition Print :: "'v env \<Rightarrow> addr \<Rightarrow> 'v operand list \<Rightarrow> 'w state \<Rightarrow> failure + 'w state" where
  "Print env self v st = print env self DisableLevel (fmt_Sprint env v) False st"

definition Println :: "'v env \<Rightarrow> addr \<Rightarrow> 'v operand list \<Rightarrow> 'w state \<Rightarrow> failure + 'w state" where
  "Println env self v st = print env self DisableLevel (fmt_Sprint env v) True st"

definition Log ::
  "'v env \<Rightarrow> addr \<Rightarrow> Level \<Rightarrow> 'v operand list \<Rightarrow> 'w state \<Rightarrow> failure + 'w state" where
  "Log env self level v st = print env self level (fmt_Sprint env v) True st"

definition Logf ::
  "'v env \<Rightarrow> addr \<Rightarrow> Level \<Rightarrow> string \<Rightarrow> 'v operand list \<Rightarrow> 'w state \<Rightarrow> failure + 'w state" where
  "Logf env self level format args st =
     (let msg = fmt_Sprintf env format args in Log env self level [StringVal msg] st)"

definition Error :: "'v env \<Rightarrow> addr \<Rightarrow> 'v operand list \<Rightarrow> 'w state \<Rightarrow> failure + 'w state" where
  "Error env self v st = Log env self ErrorLevel v st"

definition Errorf ::
  "'v env \<Rightarrow> addr \<Rightarrow> string \<Rightarrow> 'v operand list \<Rightarrow> 'w state \<Rightarrow> failure + 'w state" where
  "Errorf env self format args st =
     (let msg = fmt_Sprintf env format args in Error env self [StringVal msg] st)"

definition Warn :: "'v env \<Rightarrow> addr \<Rightarrow> 'v operand list \<Rightarrow> 'w state \<Rightarrow> failure + 'w state" where
  "Warn env self v st = Log env self WarnLevel v st"

definition Warnf ::
  "'v env \<Rightarrow> addr \<Rightarrow> string \<Rightarrow> 'v operand list \<Rightarrow> 'w state \<Rightarrow> failure + 'w state" where
  "Warnf env self format args st =
     (let msg = fmt_Sprintf env format args in Warn env self [StringVal msg] st)"

definition Info :: "'v env \<Rightarrow> addr \<Rightarrow> 'v operand list \<Rightarrow> 'w state \<Rightarrow> failure + 'w state" where
  "Info env self v st = Log env self InfoLevel v st"

definition Infof ::
  "'v env \<Rightarrow> addr \<Rightarrow> string \<Rightarrow> 'v operand list \<Rightarrow> 'w state \<Rightarrow> failure + 'w state" where
  "Infof env self format args st =
     (let msg = fmt_Sprintf env format args in Info env self [StringVal msg] st)"

definition Debug :: "'v env \<Rightarrow> addr \<Rightarrow> 'v operand list \<Rightarrow> 'w state \<Rightarrow> failure + 'w state" where
  "Debug env self v st = Log env self DebugLevel v st"

definition Debugf ::
  "'v env \<Rightarrow> addr \<Rightarrow> string \<Rightarrow> 'v operand list \<Rightarrow> 'w state \<Rightarrow> failure + 'w state" where
  "Debugf env self format args st =
     (let msg = fmt_Sprintf env format args in Debug env self [StringVal msg] st)"

subsection \<open>Configuration\<close>

text \<open>
  \<^verbatim>\<open>SetPrefix\<close> takes the logger's mutex, assigns and releases it. With the mutex
  already held and no other thread to release it, the call never returns. It assigns a
  newly allocated byte slice, so a prefix is a value.
\<close>

definition SetPrefix :: "addr \<Rightarrow> string \<Rightarrow> 'w state \<Rightarrow> failure + 'w state" where
  "SetPrefix self s st =
     (case deref (loggers st) self of
        None \<Rightarrow> Inl NilDereference
      | Some l \<Rightarrow>
          if mu l then Inl Deadlock
          else
            let l = l\<lparr>mu := True\<rparr>;
                l = l\<lparr>Prefix := s\<rparr>;
                l = l\<lparr>mu := False\<rparr>
            in Inr (st\<lparr>loggers := (loggers st)[self := l]\<rparr>))"

subsection \<open>Construction, cloning and the child registry\<close>

definition newLoggerMap :: "'w state \<Rightarrow> addr \<times> 'w state" where
  "newLoggerMap st = (length (maps st), st\<lparr>maps := maps st @ [\<lparr>Items = Map.empty\<rparr>]\<rparr>)"

text \<open>
  \<^verbatim>\<open>New\<close>; \<open>terminal\<close> tells whether the standard output is a terminal.
\<close>

definition New :: "bool \<Rightarrow> 'w state \<Rightarrow> addr \<times> 'w state" where
  "New terminal st =
     (let p = length (printers st);
          st = st\<lparr>printers := printers st @ [\<lparr>IsTerminal = terminal, Output = []\<rparr>]\<rparr>
      in case newLoggerMap st of
           (m, st) \<Rightarrow>
             (length (loggers st),
              st\<lparr>loggers := loggers st @
                   [\<lparr>Prefix = [], Level = InfoLevel, TimeFormat = ''2006/01/02 15:04'',
                     mu = False, Printer = p, handlers = [], once = False, logs = [],
                     children = m\<rparr>]\<rparr>))"

definition Clone :: "addr \<Rightarrow> 'w state \<Rightarrow> failure + addr \<times> 'w state" where
  "Clone self st =
     (case deref (loggers st) self of
        None \<Rightarrow> Inl NilDereference
      | Some l \<Rightarrow>
          (case newLoggerMap st of
             (m, st) \<Rightarrow>
               Inr (length (loggers st),
                    st\<lparr>loggers := loggers st @
                         [\<lparr>Prefix = Prefix l, Level = Logger.Level l,
                           TimeFormat = TimeFormat l, mu = False, Printer = Printer l,
                           handlers = handlers l, once = False, logs = [],
                           children = m\<rparr>]\<rparr>)))"

text \<open>
  \<^verbatim>\<open>getOrAdd\<close> in its three sections: the lookup under the read lock, the derivation of
  the child (no lock held), and the insertion under the write lock.
\<close>

definition getOrAdd_lookup :: "addr \<Rightarrow> string \<Rightarrow> 'w state \<Rightarrow> failure + addr option" where
  "getOrAdd_lookup m name st =
     (case deref (maps st) m of
        None \<Rightarrow> Inl NilDereference
      | Some lm \<Rightarrow> Inr (Items lm name))"

definition getOrAdd_derive :: "string \<Rightarrow> addr \<Rightarrow> 'w state \<Rightarrow> failure + addr \<times> 'w state" where
  "getOrAdd_derive name parent st =
     (case Clone parent st of
        Inl e \<Rightarrow> Inl e
      | Inr (logger, st) \<Rightarrow>
          let prefix = name in
          if length prefix = 0 then Inl IndexOutOfRange
          else
            let lb = name ! (length prefix - 1);
                prefix = (if lb \<noteq> CHR '' '' then prefix @ '': '' else prefix)
            in (case SetPrefix logger prefix st of
                  Inl e \<Rightarrow> Inl e
                | Inr st \<Rightarrow> Inr (logger, st)))"

definition getOrAdd_insert :: "addr \<Rightarrow> string \<Rightarrow> addr \<Rightarrow> 'w state \<Rightarrow> failure + addr \<times> 'w state" where
  "getOrAdd_insert m name logger st =
     (case deref (maps st) m of
        None \<Rightarrow> Inl NilDereference
      | Some lm \<Rightarrow>
          Inr (logger, st\<lparr>maps := (maps st)[m := lm\<lparr>Items := (Items lm)(name \<mapsto> logger)\<rparr>]\<rparr>))"

definition getOrAdd :: "addr \<Rightarrow> string \<Rightarrow> addr \<Rightarrow> 'w state \<Rightarrow> failure + addr \<times> 'w state" where
  "getOrAdd m name parent st =
     (case getOrAdd_lookup m name st of
        Inl e \<Rightarrow> Inl e
      | Inr (Some logger) \<Rightarrow> Inr (logger, st)
      | Inr None \<Rightarrow>
          (case getOrAdd_derive name parent st of
             Inl e \<Rightarrow> Inl e
           | Inr (logger, st) \<Rightarrow> getOrAdd_insert m name logger st))"

definition Child :: "addr \<Rightarrow> string \<Rightarrow> 'w state \<Rightarrow> failure + addr \<times> 'w state" where
  "Child self name st =
     (case deref (loggers st) self of
        None \<Rightarrow> Inl NilDereference
      | Some l \<Rightarrow> getOrAdd (children l) name self st)"

subsection \<open>Observations on a state\<close>

text \<open>The operations a printer's sink has received so far.\<close>

definition sink :: "'w state \<Rightarrow> addr \<Rightarrow> emission list" where
  "sink st p = (case deref (printers st) p of None \<Rightarrow> [] | Some printer \<Rightarrow> Output printer)"

text \<open>What the sink received between two states.\<close>

definition emitted :: "'w state \<Rightarrow> 'w state \<Rightarrow> addr \<Rightarrow> emission list" where
  "emitted st st' p = drop (length (sink st p)) (sink st' p)"

text \<open>
  A logger is well formed in a state when its printer is allocated and every idle record
  of its pool refers back to it; \<^verbatim>\<open>New\<close> and \<^verbatim>\<open>Clone\<close> build such loggers and
  \<^verbatim>\<open>print\<close> keeps them so.
\<close>

definition wf_logger :: "'w state \<Rightarrow> addr \<Rightarrow> bool" where
  "wf_logger st self =
     (case deref (loggers st) self of
        None \<Rightarrow> False
      | Some l \<Rightarrow>
          Printer l < length (printers st) \<and> list_all (\<lambda>r. Logger r = self) (logs l))"

text \<open>
  Whether the handler chain of \<open>l\<close> reports the record of a call of \<^verbatim>\<open>print\<close> as
  handled.
\<close>

definition consumes ::
  "'w Logger \<Rightarrow> addr \<Rightarrow> Time \<Rightarrow> Level \<Rightarrow> string \<Rightarrow> bool \<Rightarrow> 'w \<Rightarrow> bool" where
  "consumes l self now level msg newLine w =
     fst (handled l (fst (acquireLog self now level msg newLine l)) w)"

text \<open>The line of \<^verbatim>\<open>logHijacker\<close> in closed form: a non-empty field carries its space.\<close>

definition spaced :: "string \<Rightarrow> string" where
  "spaced field = (if field = [] then [] else field @ '' '')"

definition rendered :: "'v env \<Rightarrow> 'w Logger \<Rightarrow> Printer \<Rightarrow> Log \<Rightarrow> string" where
  "rendered env owner printer l =
     Prefix owner @ spaced (GetTextForLevel env (Log.Level l) (IsTerminal printer)) @
     spaced (FormatTime env owner l) @ Message l"

subsection \<open>Sample environment and states\<close>

text \<open>
  An environment whose \<^verbatim>\<open>Sprint\<close> concatenates its operands, and a state holding one
  logger (address 0) with threshold \<open>T\<close> and handler chain \<open>hs\<close>, one printer that is
  not a terminal and one empty registry.
\<close>

definition sample_env :: "string env" where
  "sample_env =
     \<lparr>fmt_Sprint = (\<lambda>ops. concat (map (\<lambda>x. case x of StringVal s \<Rightarrow> s | OtherVal s \<Rightarrow> s) ops)),
      fmt_Sprintf = (\<lambda>format args. format),
      time_Format = (\<lambda>t layout. layout),
      colorize = (\<lambda>level tag. tag)\<rparr>"

definition sample_logger :: "Level \<Rightarrow> 'w Handler list \<Rightarrow> 'w Logger" where
  "sample_logger T hs =
     \<lparr>Prefix = ''svc: '', Level = T, TimeFormat = [], mu = False, Printer = 0,
      handlers = hs, once = False, logs = [], children = 0\<rparr>"

definition sample_state :: "Level \<Rightarrow> 'w Handler list \<Rightarrow> 'w \<Rightarrow> 'w state" where
  "sample_state T hs w =
     \<lparr>loggers = [sample_logger T hs],
      printers = [\<lparr>IsTerminal = False, Output = []\<rparr>],
      maps = [\<lparr>Items = Map.empty\<rparr>],
      clock = 7,
      world = w\<rparr>"

subsection \<open>Handlers that keep a journal\<close>

text \<open>
  \<open>traced i h\<close> behaves as the handler \<open>h\<close> and, each time it is invoked, writes its
  name \<open>i\<close> at the end of a journal kept in the world. The journal of a chain of such
  handlers is the sequence of the invocations \<^verbatim>\<open>handled\<close> made.
\<close>

definition traced :: "'i \<Rightarrow> 'w Handler \<Rightarrow> ('w \<times> 'i list) Handler" where
  "traced i h log s = (case h log (fst s) of (b, w') \<Rightarrow> (b, (w', snd s @ [i])))"

definition traced_chain :: "('i \<times> 'w Handler) list \<Rightarrow> ('w \<times> 'i list) Handler list" where
  "traced_chain named = map (\<lambda>(i, h). traced i h) named"

text \<open>A handler that declines every record and one that consumes every record.\<close>

definition decline :: "'w Handler" where
  "decline log w = (False, w)"

definition accept :: "'w Handler" where
  "accept log w = (True, w)"

subsection \<open>The prefix of a child, as the specification words it\<close>

text \<open>
  The specification: if the name does not already end in whitespace, append the separator
  \<^verbatim>\<open>": "\<close>; otherwise use the name unchanged. Whitespace is a space, a tab, a line feed,
  a vertical tab, a form feed or a carriage return.
\<close>

definition isSpace :: "char \<Rightarrow> bool" where
  "isSpace c = (c \<in> set [CHR '' '', CHR 0x09, CHR 0x0A, CHR 0x0B, CHR 0x0C, CHR 0x0D])"

definition ends_in_whitespace :: "string \<Rightarrow> bool" where
  "ends_in_whitespace name = (name \<noteq> [] \<and> isSpace (last name))"

definition child_prefix_spec :: "string \<Rightarrow> string" where
  "child_prefix_spec name = (if ends_in_whitespace name then name else name @ '': '')"

text \<open>The prefix of the logger a call of \<^verbatim>\<open>Child\<close> returned.\<close>

definition prefix_of_result :: "failure + addr \<times> 'w state \<Rightarrow> failure + string" where
  "prefix_of_result r =
     (case r of
        Inl e \<Rightarrow> Inl e
      | Inr (c, st) \<Rightarrow>
          (case deref (loggers st) c of
             None \<Rightarrow> Inl NilDereference
           | Some l \<Rightarrow> Inr (Prefix l)))"

subsection \<open>The rendered line, as the specification words it\<close>

text \<open>
  The specification: the line is the logger's prefix, raw, followed by the level tag, the
  timestamp and the message; a field that is empty is omitted, exactly one space separates
  two adjacent fields that remain, and no space follows the last.
\<close>

fun join_fields :: "string list \<Rightarrow> string" where
  "join_fields [] = []"
| "join_fields [x] = x"
| "join_fields (x # y # ys) = x @ '' '' @ join_fields (y # ys)"

definition render_spec :: "string \<Rightarrow> string \<Rightarrow> string \<Rightarrow> string \<Rightarrow> string" where
  "render_spec prefix tag timestamp message =
     prefix @ join_fields (filter (\<lambda>field. field \<noteq> []) [tag, timestamp, message])"

text \<open>The sink of printer \<open>p\<close> after a call that returned; nothing when it panicked.\<close>

definition sink_of_result :: "failure + 'w state \<Rightarrow> addr \<Rightarrow> emission list" where
  "sink_of_result r p = (case r of Inl e \<Rightarrow> [] | Inr st \<Rightarrow> sink st p)"

subsection \<open>Concurrent callers of \<^verbatim>\<open>getOrAdd\<close>\<close>

text \<open>
  Two goroutines call \<^verbatim>\<open>getOrAdd\<close> with the same arguments. A caller is at one of the
  three sections of the function, or has returned a logger, or has panicked. The lookup
  and the insertion are atomic because the lock of the registry is held throughout each;
  the derivation works on objects only its caller knows. A step runs the section the
  caller is at; \<^verbatim>\<open>getOrAdd\<close> is three steps of one caller in a row. A schedule says
  which caller takes the next step.
\<close>

datatype getOrAdd_pc =
    AtLookup
  | AtDerive
  | AtInsert addr
  | Returned addr
  | Panicked failure

definition getOrAdd_step ::
  "addr \<Rightarrow> string \<Rightarrow> addr \<Rightarrow> getOrAdd_pc \<Rightarrow> 'w state \<Rightarrow> getOrAdd_pc \<times> 'w state" where
  "getOrAdd_step m name parent pc st =
     (case pc of
        AtLookup \<Rightarrow>
          (case getOrAdd_lookup m name st of
             Inl e \<Rightarrow> (Panicked e, st)
           | Inr (Some logger) \<Rightarrow> (Returned logger, st)
           | Inr None \<Rightarrow> (AtDerive, st))
      | AtDerive \<Rightarrow>
          (case getOrAdd_derive name parent st of
             Inl e \<Rightarrow> (Panicked e, st)
           | Inr (logger, st') \<Rightarrow> (AtInsert logger, st'))
      | AtInsert logger \<Rightarrow>
          (case getOrAdd_insert m name logger st of
             Inl e \<Rightarrow> (Panicked e, st)
           | Inr (logger', st') \<Rightarrow> (Returned logger', st'))
      | Returned logger \<Rightarrow> (Returned logger, st)
      | Panicked e \<Rightarrow> (Panicked e, st))"

datatype caller = CallerA | CallerB

fun run_callers ::
  "addr \<Rightarrow> string \<Rightarrow> addr \<Rightarrow> caller list \<Rightarrow> getOrAdd_pc \<times> getOrAdd_pc \<times> 'w state \<Rightarrow>
   getOrAdd_pc \<times> getOrAdd_pc \<times> 'w state" where
  "run_callers m name parent [] cfg = cfg"
| "run_callers m name parent (CallerA # schedule) (a, b, st) =
     (case getOrAdd_step m name parent a st of
        (a', st') \<Rightarrow> run_callers m name parent schedule (a', b, st'))"
| "run_callers m name parent (CallerB # schedule) (a, b, st) =
     (case getOrAdd_step m name parent b st of
        (b', st') \<Rightarrow> run_callers m name parent schedule (a, b', st'))"

text \<open>
  The result of a caller that has finished, and the logger the registry \<open>m\<close> holds
  under a name.
\<close>

definition outcome :: "getOrAdd_pc \<Rightarrow> 'w state \<Rightarrow> (failure + addr \<times> 'w state) option" where
  "outcome pc st =
     (case pc of
        Returned logger \<Rightarrow> Some (Inr (logger, st))
      | Panicked e \<Rightarrow> Some (Inl e)
      | _ \<Rightarrow> None)"

definition stored :: "'w state \<Rightarrow> addr \<Rightarrow> string \<Rightarrow> addr option" where
  "stored st m name = (case deref (maps st) m of None \<Rightarrow> None | Some lm \<Rightarrow> Items lm name)"

section \<open>Properties\<close>

subsection \<open>Auxiliary facts\<close>

lemma acquireLog_owner:
  "list_all (\<lambda>r. Logger r = self) (logs l) \<Longrightarrow>
   Logger (fst (acquireLog self now level msg withPrintln l)) = self"
  by (auto simp add: acquireLog_def pool_Get_def Let_def split: list.splits)

lemma acquireLog_logger:
  "snd (acquireLog self now level msg withPrintln l) = l\<lparr>logs := snd (pool_Get (logs l))\<rparr>"
  by (simp add: acquireLog_def pool_Get_def Let_def split: list.splits)

lemma handled_logs: "handled (l\<lparr>logs := idle\<rparr>) log w = handled l log w"
  by (simp add: handled_def)

lemma logHijacker_rendered:
  "deref (loggers st) (Logger log) = Some owner \<Longrightarrow>
   logHijacker env st printer log = Inr (rendered env owner printer log)"
  by (simp add: logHijacker_def rendered_def spaced_def Let_def)

lemma print_filtered:
  "deref (loggers st) self = Some l \<Longrightarrow> \<not> level \<le> Logger.Level l \<Longrightarrow>
   print env self level msg newLine st = Inr st"
  by (simp add: print_def)

text \<open>The state a call of \<^verbatim>\<open>print\<close> that passes the filter returns.\<close>

lemma print_pass:
  assumes l: "deref (loggers st) self = Some l"
    and wf: "wf_logger st self"
    and pass: "level \<le> Logger.Level l"
  shows "print env self level msg newLine st =
    (let log = fst (acquireLog self (clock st) level msg newLine l);
         idle = snd (pool_Get (logs l));
         hw = handled l log (world st);
         p = Printer l;
         printer = printers st ! p;
         b = rendered env l printer log
     in Inr (st\<lparr>loggers := (loggers st)[self := l\<lparr>logs := pool_Put log idle\<rparr>],
                world := snd hw,
                printers := (if fst hw then printers st
                             else (printers st)[p := printer\<lparr>Output := Output printer @
                                     [if newLine then WriteLine b else Write b]\<rparr>])\<rparr>))"
proof -
  from l have self_lt: "self < length (loggers st)"
    by (auto simp: deref_def split: if_splits)
  from wf l have p_lt: "Printer l < length (printers st)"
    and owned: "list_all (\<lambda>r. Logger r = self) (logs l)"
    by (auto simp: wf_logger_def)
  obtain log l1 where acq: "acquireLog self (clock st) level msg newLine l = (log, l1)"
    by (cases "acquireLog self (clock st) level msg newLine l")
  have log_owner: "Logger log = self"
    using acquireLog_owner[OF owned, of "clock st" level msg newLine] acq by simp
  have l1: "l1 = l\<lparr>logs := snd (pool_Get (logs l))\<rparr>"
    using acquireLog_logger[of self "clock st" level msg newLine l] acq by simp
  obtain h w where hw: "handled l log (world st) = (h, w)"
    by (cases "handled l log (world st)")
  show ?thesis
    using l pass acq hw self_lt p_lt log_owner
    by (simp add: print_def l1 Printer_Println_def Printer_Print_def deref_def
        logHijacker_def rendered_def spaced_def releaseLog_def Let_def FormatTime_def
        handled_logs)
qed

lemma sink_print_pass:
  assumes l: "deref (loggers st) self = Some l"
    and wf: "wf_logger st self"
    and pass: "level \<le> Logger.Level l"
    and res: "print env self level msg newLine st = Inr st'"
  shows "sink st' (Printer l) = sink st (Printer l) @
           (if consumes l self (clock st) level msg newLine (world st) then []
            else [if newLine
                  then WriteLine (rendered env l (printers st ! Printer l)
                         (fst (acquireLog self (clock st) level msg newLine l)))
                  else Write (rendered env l (printers st ! Printer l)
                         (fst (acquireLog self (clock st) level msg newLine l)))])"
proof -
  from wf l have p_lt: "Printer l < length (printers st)"
    by (auto simp: wf_logger_def)
  let ?log = "fst (acquireLog self (clock st) level msg newLine l)"
  show ?thesis
  proof (cases "fst (handled l ?log (world st))")
    case True
    then show ?thesis
      using res p_lt unfolding print_pass[OF l wf pass]
      by (auto simp: sink_def deref_def consumes_def Let_def)
  next
    case False
    then show ?thesis
      using res p_lt unfolding print_pass[OF l wf pass]
      by (cases newLine) (auto simp: sink_def deref_def consumes_def Let_def)
  qed
qed

lemma print_returns:
  assumes l: "deref (loggers st) self = Some l" and wf: "wf_logger st self"
  shows "\<exists>st'. print env self level msg newLine st = Inr st'"
proof (cases "level \<le> Logger.Level l")
  case True
  then show ?thesis unfolding print_pass[OF l wf True] by (simp add: Let_def)
next
  case False
  then show ?thesis using print_filtered[OF l False, of env msg newLine] by simp
qed

lemma emitted_print:
  assumes l: "deref (loggers st) self = Some l"
    and wf: "wf_logger st self"
    and res: "print env self level msg newLine st = Inr st'"
  shows "sink st' (Printer l) = sink st (Printer l) @ emitted st st' (Printer l)"
    and "emitted st st' (Printer l) =
           (if level \<le> Logger.Level l \<and> \<not> consumes l self (clock st) level msg newLine (world st)
            then [if newLine
                  then WriteLine (rendered env l (printers st ! Printer l)
                         (fst (acquireLog self (clock st) level msg newLine l)))
                  else Write (rendered env l (printers st ! Printer l)
                         (fst (acquireLog self (clock st) level msg newLine l)))]
            else [])"
proof -
  show "emitted st st' (Printer l) =
           (if level \<le> Logger.Level l \<and> \<not> consumes l self (clock st) level msg newLine (world st)
            then [if newLine
                  then WriteLine (rendered env l (printers st ! Printer l)
                         (fst (acquireLog self (clock st) level msg newLine l)))
                  else Write (rendered env l (printers st ! Printer l)
                         (fst (acquireLog self (clock st) level msg newLine l)))]
            else [])"
  proof (cases "level \<le> Logger.Level l")
    case True
    show ?thesis using sink_print_pass[OF l wf True res] True by (simp add: emitted_def)
  next
    case False
    show ?thesis using print_filtered[OF l False, of env msg newLine] res False
      by (simp add: emitted_def)
  qed
  then show "sink st' (Printer l) = sink st (Printer l) @ emitted st st' (Printer l)"
  proof (cases "level \<le> Logger.Level l")
    case True
    show ?thesis using sink_print_pass[OF l wf True res] True by (simp add: emitted_def)
  next
    case False
    show ?thesis using print_filtered[OF l False, of env msg newLine] res False
      by (simp add: emitted_def)
  qed
qed

subsection \<open>Level filtering\<close>

text \<open>
  C1. For every level \<open>L\<close> and every threshold \<open>T\<close> (the \<^verbatim>\<open>Level\<close> of the logger), a
  leveled call \<^verbatim>\<open>Log(L, v...)\<close> returns, and the sink of the logger's printer receives
  an emission from it if and only if \<open>L \<le> T\<close> and no handler consumed the record; with a
  handler chain that consumes nothing this is: if and only if \<open>T \<ge> L\<close>. The level-less
  calls \<^verbatim>\<open>Println\<close> and \<^verbatim>\<open>Print\<close> reach the handlers and the sink whatever the
  threshold is, the disabled tier included: their emission depends on the handlers only.
\<close>

theorem C1_level_filter:
  assumes "deref (loggers st) self = Some l" and "wf_logger st self"
  shows
    "(\<exists>st'. Log env self L v st = Inr st' \<and>
        sink st' (Printer l) = sink st (Printer l) @ emitted st st' (Printer l) \<and>
        (emitted st st' (Printer l) \<noteq> [] \<longleftrightarrow>
           L \<le> Logger.Level l \<and>
           \<not> consumes l self (clock st) L (fmt_Sprint env v) True (world st))) \<and>
     (\<exists>st'. Println env self v st = Inr st' \<and>
        sink st' (Printer l) = sink st (Printer l) @ emitted st st' (Printer l) \<and>
        (emitted st st' (Printer l) \<noteq> [] \<longleftrightarrow>
           \<not> consumes l self (clock st) DisableLevel (fmt_Sprint env v) True (world st))) \<and>
     (\<exists>st'. Print env self v st = Inr st' \<and>
        sink st' (Printer l) = sink st (Printer l) @ emitted st st' (Printer l) \<and>
        (emitted st st' (Printer l) \<noteq> [] \<longleftrightarrow>
           \<not> consumes l self (clock st) DisableLevel (fmt_Sprint env v) False (world st)))"
proof -
  have leveled: "\<exists>st'. Log env self L v st = Inr st' \<and>
        sink st' (Printer l) = sink st (Printer l) @ emitted st st' (Printer l) \<and>
        (emitted st st' (Printer l) \<noteq> [] \<longleftrightarrow>
           L \<le> Logger.Level l \<and>
           \<not> consumes l self (clock st) L (fmt_Sprint env v) True (world st))"
  proof -
    obtain st' where r: "print env self L (fmt_Sprint env v) True st = Inr st'"
      using print_returns[OF assms] by blast
    show ?thesis
      using r emitted_print[OF assms r] by (simp add: Log_def)
  qed
  have println: "\<exists>st'. Println env self v st = Inr st' \<and>
        sink st' (Printer l) = sink st (Printer l) @ emitted st st' (Printer l) \<and>
        (emitted st st' (Printer l) \<noteq> [] \<longleftrightarrow>
           \<not> consumes l self (clock st) DisableLevel (fmt_Sprint env v) True (world st))"
  proof -
    obtain st' where r: "print env self DisableLevel (fmt_Sprint env v) True st = Inr st'"
      using print_returns[OF assms] by blast
    show ?thesis
      using r emitted_print[OF assms r] by (simp add: Println_def DisableLevel_def)
  qed
  have plain: "\<exists>st'. Print env self v st = Inr st' \<and>
        sink st' (Printer l) = sink st (Printer l) @ emitted st st' (Printer l) \<and>
        (emitted st st' (Printer l) \<noteq> [] \<longleftrightarrow>
           \<not> consumes l self (clock st) DisableLevel (fmt_Sprint env v) False (world st))"
  proof -
    obtain st' where r: "print env self DisableLevel (fmt_Sprint env v) False st = Inr st'"
      using print_returns[OF assms] by blast
    show ?thesis
      using r emitted_print[OF assms r] by (simp add: Print_def DisableLevel_def)
  qed
  from leveled println plain show ?thesis by blast
qed

theorem C1_level_filter_witness:
  "deref (loggers (sample_state DisableLevel [] ())) 0 = Some (sample_logger DisableLevel []) \<and>
   wf_logger (sample_state DisableLevel [] ()) 0 \<and>
   (\<exists>st'. Log sample_env 0 ErrorLevel [StringVal ''boom''] (sample_state DisableLevel [] ()) = Inr st' \<and>
      emitted (sample_state DisableLevel [] ()) st' 0 = []) \<and>
   (\<exists>st'. Print sample_env 0 [StringVal ''boom''] (sample_state DisableLevel [] ()) = Inr st' \<and>
      emitted (sample_state DisableLevel [] ()) st' 0 \<noteq> [])"
proof -
  let ?st = "sample_state DisableLevel [] () :: unit state"
  let ?l = "sample_logger DisableLevel [] :: unit Logger"
  have h1: "deref (loggers ?st) 0 = Some ?l"
    by (simp add: sample_state_def deref_def)
  have h2: "wf_logger ?st 0"
    by (simp add: wf_logger_def sample_state_def sample_logger_def deref_def)
  have p: "Printer ?l = 0" and t: "Logger.Level ?l = 0"
    by (simp_all add: sample_logger_def DisableLevel_def)
  have c: "\<not> consumes ?l 0 now level msg newLine w" for now level msg newLine and w :: unit
    by (simp add: consumes_def handled_def sample_logger_def)
  from C1_level_filter[OF h1 h2, of sample_env ErrorLevel "[StringVal ''boom'']"]
  show ?thesis
    using h1 h2 by (auto simp add: p t c ErrorLevel_def)
qed

subsection \<open>The record pool\<close>

text \<open>
  C8. The record \<^verbatim>\<open>acquireLog\<close> returns has its \<^verbatim>\<open>NewLine\<close>, \<^verbatim>\<open>Time\<close>,
  \<^verbatim>\<open>Level\<close> and \<^verbatim>\<open>Message\<close> fields set to the values of the current call, for every
  content of the pool: on a miss the record is built new for the receiver, on a hit the
  idle record \<open>stale\<close> is reused and none of the four fields keeps its earlier value.
\<close>

theorem C8_acquireLog_overwrites:
  "NewLine (fst (acquireLog self now level msg withPrintln l)) = withPrintln \<and>
   Time (fst (acquireLog self now level msg withPrintln l)) = now \<and>
   Log.Level (fst (acquireLog self now level msg withPrintln l)) = level \<and>
   Message (fst (acquireLog self now level msg withPrintln l)) = msg \<and>
   acquireLog self now level msg withPrintln (l\<lparr>logs := []\<rparr>) =
     (\<lparr>Logger = self, NewLine = withPrintln, Time = now, Level = level, Message = msg\<rparr>,
      l\<lparr>logs := []\<rparr>) \<and>
   acquireLog self now level msg withPrintln (l\<lparr>logs := stale # idle\<rparr>) =
     (\<lparr>Logger = Logger stale, NewLine = withPrintln, Time = now, Level = level, Message = msg\<rparr>,
      l\<lparr>logs := idle\<rparr>)"
  by (simp add: acquireLog_def pool_Get_def Let_def split: list.splits)

text \<open>
  C5. A call of \<^verbatim>\<open>print\<close> that passes the level filter returns, and afterwards the idle
  set of the receiver's pool is the record acquired for the call put in front of what
  the acquisition left: the record went back exactly once (it occurs once more than in
  what the acquisition left). This holds for every handler chain, so on the path where a
  handler consumed the record as on the path of the default emission.
\<close>

theorem C5_record_released_once:
  assumes "deref (loggers st) self = Some l"
    and "wf_logger st self"
    and "level \<le> Logger.Level l"
  shows "\<exists>st'. print env self level msg newLine st = Inr st' \<and>
           deref (loggers st') self =
             Some (l\<lparr>logs := fst (acquireLog self (clock st) level msg newLine l) #
                               snd (pool_Get (logs l))\<rparr>) \<and>
           count_list (logs (loggers st' ! self))
               (fst (acquireLog self (clock st) level msg newLine l)) =
             Suc (count_list (snd (pool_Get (logs l)))
               (fst (acquireLog self (clock st) level msg newLine l)))"
proof -
  from assms(1) have "self < length (loggers st)"
    by (auto simp: deref_def split: if_splits)
  then show ?thesis
    unfolding print_pass[OF assms]
    by (simp add: Let_def deref_def pool_Put_def)
qed

theorem C5_record_released_once_witness:
  "deref (loggers (sample_state InfoLevel [\<lambda>log w. (True, w)] ())) 0 =
     Some (sample_logger InfoLevel [\<lambda>log w. (True, w)]) \<and>
   wf_logger (sample_state InfoLevel [\<lambda>log w. (True, w)] ()) 0 \<and>
   ErrorLevel \<le> Logger.Level (sample_logger InfoLevel [\<lambda>log w. (True, w)] :: unit Logger) \<and>
   (\<exists>st'. print sample_env 0 ErrorLevel ''boom'' True
            (sample_state InfoLevel [\<lambda>log w. (True, w)] ()) = Inr st' \<and>
      logs (loggers st' ! 0) =
        [\<lparr>Logger = 0, NewLine = True, Time = 7, Level = ErrorLevel, Message = ''boom''\<rparr>] \<and>
      sink st' 0 = [])"
proof -
  let ?hs = "[\<lambda>log w. (True, w)] :: unit Handler list"
  let ?st = "sample_state InfoLevel ?hs ()"
  let ?l = "sample_logger InfoLevel ?hs"
  have h1: "deref (loggers ?st) 0 = Some ?l"
    by (simp add: sample_state_def deref_def)
  have h2: "wf_logger ?st 0"
    by (simp add: wf_logger_def sample_state_def sample_logger_def deref_def)
  have h3: "ErrorLevel \<le> Logger.Level ?l"
    by (simp add: sample_logger_def ErrorLevel_def InfoLevel_def)
  have acq: "fst (acquireLog 0 (clock ?st) ErrorLevel ''boom'' True ?l) =
      \<lparr>Logger = 0, NewLine = True, Time = 7, Level = ErrorLevel, Message = ''boom''\<rparr>"
    by (simp add: acquireLog_def pool_Get_def sample_logger_def sample_state_def)
  have idle: "snd (pool_Get (logs ?l)) = []"
    by (simp add: pool_Get_def sample_logger_def)
  from C5_record_released_once[OF h1 h2 h3, of sample_env "''boom''" True]
  obtain st' where r: "print sample_env 0 ErrorLevel ''boom'' True ?st = Inr st'"
    and d: "deref (loggers st') 0 =
      Some (?l\<lparr>logs := [\<lparr>Logger = 0, NewLine = True, Time = 7, Level = ErrorLevel, Message = ''boom''\<rparr>]\<rparr>)"
    unfolding acq idle by blast
  from d have lg: "logs (loggers st' ! 0) =
      [\<lparr>Logger = 0, NewLine = True, Time = 7, Level = ErrorLevel, Message = ''boom''\<rparr>]"
    by (auto simp: deref_def split: if_splits)
  have quiet: "sink st' 0 = []"
    using r h1 unfolding print_pass[OF h1 h2 h3]
    by (auto simp: Let_def handled_def sample_logger_def sample_state_def sink_def deref_def)
  have "\<exists>st'. print sample_env 0 ErrorLevel ''boom'' True ?st = Inr st' \<and>
      logs (loggers st' ! 0) =
        [\<lparr>Logger = 0, NewLine = True, Time = 7, Level = ErrorLevel, Message = ''boom''\<rparr>] \<and>
      sink st' 0 = []"
    using r lg quiet by (intro exI[of _ st']) simp
  with h1 h2 h3 show ?thesis by simp
qed

subsection \<open>The newline flag\<close>

text \<open>
  C10. \<^verbatim>\<open>Log\<close>, \<^verbatim>\<open>Logf\<close>, \<^verbatim>\<open>Error\<close>, \<^verbatim>\<open>Errorf\<close>, \<^verbatim>\<open>Warn\<close>, \<^verbatim>\<open>Warnf\<close>,
  \<^verbatim>\<open>Info\<close>, \<^verbatim>\<open>Infof\<close>, \<^verbatim>\<open>Debug\<close>, \<^verbatim>\<open>Debugf\<close> and \<^verbatim>\<open>Println\<close> call
  \<^verbatim>\<open>print\<close> with the newline flag set, \<^verbatim>\<open>Print\<close> with the flag cleared. When the
  call passes the filter and no handler consumes the record, the sink receives exactly
  one operation: its write-with-newline when the record's \<^verbatim>\<open>NewLine\<close> flag is true, its
  plain write otherwise.
\<close>

theorem C10_newline_flag:
  assumes "deref (loggers st) self = Some l"
    and "wf_logger st self"
    and "level \<le> Logger.Level l"
    and "\<not> consumes l self (clock st) level msg newLine (world st)"
  shows
    "Log env self L v st = print env self L (fmt_Sprint env v) True st \<and>
     Logf env self L format args st =
       print env self L (fmt_Sprint env [StringVal (fmt_Sprintf env format args)]) True st \<and>
     Error env self v st = print env self ErrorLevel (fmt_Sprint env v) True st \<and>
     Errorf env self format args st =
       print env self ErrorLevel (fmt_Sprint env [StringVal (fmt_Sprintf env format args)]) True st \<and>
     Warn env self v st = print env self WarnLevel (fmt_Sprint env v) True st \<and>
     Warnf env self format args st =
       print env self WarnLevel (fmt_Sprint env [StringVal (fmt_Sprintf env format args)]) True st \<and>
     Info env self v st = print env self InfoLevel (fmt_Sprint env v) True st \<and>
     Infof env self format args st =
       print env self InfoLevel (fmt_Sprint env [StringVal (fmt_Sprintf env format args)]) True st \<and>
     Debug env self v st = print env self DebugLevel (fmt_Sprint env v) True st \<and>
     Debugf env self format args st =
       print env self DebugLevel (fmt_Sprint env [StringVal (fmt_Sprintf env format args)]) True st \<and>
     Println env self v st = print env self DisableLevel (fmt_Sprint env v) True st \<and>
     Print env self v st = print env self DisableLevel (fmt_Sprint env v) False st \<and>
     (\<exists>st'. print env self level msg newLine st = Inr st' \<and>
        NewLine (fst (acquireLog self (clock st) level msg newLine l)) = newLine \<and>
        emitted st st' (Printer l) =
          [if NewLine (fst (acquireLog self (clock st) level msg newLine l))
           then WriteLine (rendered env l (printers st ! Printer l)
                  (fst (acquireLog self (clock st) level msg newLine l)))
           else Write (rendered env l (printers st ! Printer l)
                  (fst (acquireLog self (clock st) level msg newLine l)))])"
proof -
  have methods:
    "Log env self L v st = print env self L (fmt_Sprint env v) True st \<and>
     Logf env self L format args st =
       print env self L (fmt_Sprint env [StringVal (fmt_Sprintf env format args)]) True st \<and>
     Error env self v st = print env self ErrorLevel (fmt_Sprint env v) True st \<and>
     Errorf env self format args st =
       print env self ErrorLevel (fmt_Sprint env [StringVal (fmt_Sprintf env format args)]) True st \<and>
     Warn env self v st = print env self WarnLevel (fmt_Sprint env v) True st \<and>
     Warnf env self format args st =
       print env self WarnLevel (fmt_Sprint env [StringVal (fmt_Sprintf env format args)]) True st \<and>
     Info env self v st = print env self InfoLevel (fmt_Sprint env v) True st \<and>
     Infof env self format args st =
       print env self InfoLevel (fmt_Sprint env [StringVal (fmt_Sprintf env format args)]) True st \<and>
     Debug env self v st = print env self DebugLevel (fmt_Sprint env v) True st \<and>
     Debugf env self format args st =
       print env self DebugLevel (fmt_Sprint env [StringVal (fmt_Sprintf env format args)]) True st \<and>
     Println env self v st = print env self DisableLevel (fmt_Sprint env v) True st \<and>
     Print env self v st = print env self DisableLevel (fmt_Sprint env v) False st"
    by (simp add: Log_def Logf_def Error_def Errorf_def Warn_def Warnf_def Info_def Infof_def
        Debug_def Debugf_def Println_def Print_def Let_def)
  obtain st' where r: "print env self level msg newLine st = Inr st'"
    using print_returns[OF assms(1,2)] by blast
  have flag: "NewLine (fst (acquireLog self (clock st) level msg newLine l)) = newLine"
    by (simp add: acquireLog_def pool_Get_def Let_def split: list.splits)
  have "emitted st st' (Printer l) =
          [if newLine
           then WriteLine (rendered env l (printers st ! Printer l)
                  (fst (acquireLog self (clock st) level msg newLine l)))
           else Write (rendered env l (printers st ! Printer l)
                  (fst (acquireLog self (clock st) level msg newLine l)))]"
    using emitted_print(2)[OF assms(1,2) r] assms(3,4) by simp
  with r flag have
    "\<exists>st'. print env self level msg newLine st = Inr st' \<and>
        NewLine (fst (acquireLog self (clock st) level msg newLine l)) = newLine \<and>
        emitted st st' (Printer l) =
          [if NewLine (fst (acquireLog self (clock st) level msg newLine l))
           then WriteLine (rendered env l (printers st ! Printer l)
                  (fst (acquireLog self (clock st) level msg newLine l)))
           else Write (rendered env l (printers st ! Printer l)
                  (fst (acquireLog self (clock st) level msg newLine l)))]"
    by (intro exI[of _ st']) simp
  with methods show ?thesis by simp
qed

theorem C10_newline_flag_witness:
  "deref (loggers (sample_state InfoLevel [] ())) 0 = Some (sample_logger InfoLevel []) \<and>
   wf_logger (sample_state InfoLevel [] ()) 0 \<and>
   InfoLevel \<le> Logger.Level (sample_logger InfoLevel [] :: unit Logger) \<and>
   \<not> consumes (sample_logger InfoLevel []) 0 7 InfoLevel ''ready'' False () \<and>
   (\<exists>st'. print sample_env 0 InfoLevel ''ready'' False (sample_state InfoLevel [] ()) = Inr st' \<and>
      emitted (sample_state InfoLevel [] ()) st' 0 = [Write ''svc: INFO ready''])"
proof -
  let ?st = "sample_state InfoLevel [] () :: unit state"
  let ?l = "sample_logger InfoLevel [] :: unit Logger"
  have h1: "deref (loggers ?st) 0 = Some ?l"
    by (simp add: sample_state_def deref_def)
  have h2: "wf_logger ?st 0"
    by (simp add: wf_logger_def sample_state_def sample_logger_def deref_def)
  have h3: "InfoLevel \<le> Logger.Level ?l"
    by (simp add: sample_logger_def)
  have h4: "\<not> consumes ?l 0 (clock ?st) InfoLevel ''ready'' False (world ?st)"
    by (simp add: consumes_def handled_def sample_logger_def)
  have line: "rendered sample_env ?l (printers ?st ! 0)
      (fst (acquireLog 0 (clock ?st) InfoLevel ''ready'' False ?l)) = ''svc: INFO ready''"
    by (simp add: rendered_def spaced_def GetTextForLevel_def levelTag_def FormatTime_def
        acquireLog_def pool_Get_def sample_logger_def sample_state_def sample_env_def
        InfoLevel_def ErrorLevel_def WarnLevel_def)
  have flag: "NewLine (fst (acquireLog 0 (clock ?st) InfoLevel ''ready'' False ?l)) = False"
    by (simp add: acquireLog_def pool_Get_def sample_logger_def)
  have p: "Printer ?l = 0"
    by (simp add: sample_logger_def)
  from C10_newline_flag[where env = sample_env and L = InfoLevel and v = "[]"
      and format = "[]" and args = "[]", OF h1 h2 h3 h4]
  have "\<exists>st'. print sample_env 0 InfoLevel ''ready'' False ?st = Inr st' \<and>
      NewLine (fst (acquireLog 0 (clock ?st) InfoLevel ''ready'' False ?l)) = False \<and>
      emitted ?st st' (Printer ?l) =
        [if NewLine (fst (acquireLog 0 (clock ?st) InfoLevel ''ready'' False ?l))
         then WriteLine (rendered sample_env ?l (printers ?st ! Printer ?l)
                (fst (acquireLog 0 (clock ?st) InfoLevel ''ready'' False ?l)))
         else Write (rendered sample_env ?l (printers ?st ! Printer ?l)
                (fst (acquireLog 0 (clock ?st) InfoLevel ''ready'' False ?l)))]"
    by blast
  then have "\<exists>st'. print sample_env 0 InfoLevel ''ready'' False ?st = Inr st' \<and>
      emitted ?st st' 0 = [Write ''svc: INFO ready'']"
    by (simp add: p flag line)
  moreover have "clock ?st = 7" and "world ?st = ()"
    by (simp_all add: sample_state_def)
  ultimately show ?thesis using h1 h2 h3 h4 by simp
qed

subsection \<open>The handler chain\<close>

lemma handled_range_append:
  "handled_range (xs @ ys) log w =
     (case handled_range xs log w of
        (True, w') \<Rightarrow> (True, w')
      | (False, w') \<Rightarrow> handled_range ys log w')"
  by (induction xs arbitrary: w) (auto split: prod.splits bool.splits)

lemma handled_range_stop:
  assumes "handled_range pre log w = (False, w1)" and "h log w1 = (True, w2)"
  shows "handled_range (pre @ h # post) log w = (True, w2)"
  using assms by (simp add: handled_range_append)

lemma handled_range_split:
  "fst (handled_range hs log w) \<Longrightarrow>
   \<exists>pre h post w1. hs = pre @ h # post \<and> handled_range pre log w = (False, w1) \<and>
      h log w1 = (True, snd (handled_range hs log w))"
proof (induction hs arbitrary: w)
  case Nil
  then show ?case by simp
next
  case (Cons a hs)
  obtain b w' where a: "a log w = (b, w')" by (cases "a log w")
  show ?case
  proof (cases b)
    case True
    with a have "a # hs = [] @ a # hs \<and> handled_range [] log w = (False, w) \<and>
        a log w = (True, snd (handled_range (a # hs) log w))"
      by simp
    then show ?thesis by blast
  next
    case False
    with a Cons.prems have "fst (handled_range hs log w')" by simp
    from Cons.IH[OF this] obtain pre h post w1 where
      "hs = pre @ h # post" "handled_range pre log w' = (False, w1)"
      "h log w1 = (True, snd (handled_range hs log w'))"
      by blast
    with a False have "a # hs = (a # pre) @ h # post \<and>
        handled_range (a # pre) log w = (False, w1) \<and>
        h log w1 = (True, snd (handled_range (a # hs) log w))"
      by simp
    then show ?thesis by blast
  qed
qed

lemma traced_chain_false:
  "handled_range (map snd named) log w = (False, w') \<Longrightarrow>
   handled_range (traced_chain named) log (w, js) = (False, (w', js @ map fst named))"
proof (induction named arbitrary: w js)
  case Nil
  then show ?case by (simp add: traced_chain_def)
next
  case (Cons a named)
  obtain i h where a: "a = (i, h)" by (cases a)
  obtain b w1 where h: "h log w = (b, w1)" by (cases "h log w")
  from Cons.prems a h have b: "\<not> b" and rest: "handled_range (map snd named) log w1 = (False, w')"
    by (auto split: bool.splits)
  from Cons.IH[OF rest, of "js @ [i]"] a h b show ?case
    by (simp add: traced_chain_def traced_def)
qed

lemma traced_chain_append:
  "traced_chain (xs @ ys) = traced_chain xs @ traced_chain ys"
  by (simp add: traced_chain_def)

lemma traced_chain_stop:
  assumes "handled_range (map snd npre) log w = (False, w1)" and "h log w1 = (True, w2)"
  shows "handled_range (traced_chain (npre @ (i, h) # npost)) log (w, js) =
           (True, (w2, js @ map fst npre @ [i]))"
proof -
  have "handled_range (traced_chain npre) log (w, js) = (False, (w1, js @ map fst npre))"
    using traced_chain_false[OF assms(1)] .
  moreover have "traced i h log (w1, js @ map fst npre) = (True, (w2, js @ map fst npre @ [i]))"
    using assms(2) by (simp add: traced_def)
  ultimately show ?thesis
    by (simp add: traced_chain_append handled_range_append)
       (simp add: traced_chain_def)
qed

lemma print_consumed:
  assumes l: "deref (loggers st) self = Some l"
    and wf: "wf_logger st self"
    and pass: "level \<le> Logger.Level l"
    and c: "consumes l self (clock st) level msg newLine (world st)"
  shows "\<exists>st'. print env self level msg newLine st = Inr st' \<and> printers st' = printers st"
  using c unfolding print_pass[OF l wf pass]
  by (simp add: Let_def consumes_def)

text \<open>
  C2. \<^verbatim>\<open>handled\<close> answers false on the empty chain. It answers true exactly when the
  chain splits into handlers \<open>pre\<close> that all answered false, run in registration order
  each on the world its predecessor left, and a handler \<open>h\<close> that answered true; the
  result is then the answer and the world of \<open>h\<close>, whatever handlers \<open>post\<close> are
  registered after it. The journal of a chain of traced handlers shows the invocations:
  the names of \<open>pre\<close> in order, then the name of \<open>h\<close>, and no name of \<open>post\<close>; when
  every handler answers false, the names of all handlers in order. When the chain
  consumes the record of a call of \<^verbatim>\<open>print\<close>, the call returns and no printer has
  received anything from it.
\<close>

theorem C2_handler_short_circuit:
  "(handlers l = [] \<longrightarrow> handled l log w = (False, w)) \<and>
   (fst (handled l log w) \<longleftrightarrow>
      (\<exists>pre h post wp wh. handlers l = pre @ h # post \<and>
         handled_range pre log w = (False, wp) \<and> h log wp = (True, wh))) \<and>
   (handlers l = pre @ h # post \<and> handled_range pre log w = (False, wp) \<and>
      h log wp = (True, wh) \<longrightarrow>
    handled l log w = (True, wh)) \<and>
   (handlers lj = traced_chain (npre @ (i, h) # npost) \<and>
      handled_range (map snd npre) log w = (False, wp) \<and> h log wp = (True, wh) \<longrightarrow>
    handled lj log (w, js) = (True, (wh, js @ map fst npre @ [i]))) \<and>
   (handlers lj = traced_chain named \<and>
      handled_range (map snd named) log w = (False, w') \<longrightarrow>
    handled lj log (w, js) = (False, (w', js @ map fst named))) \<and>
   (deref (loggers st) self = Some l \<and> wf_logger st self \<and> level \<le> Logger.Level l \<and>
      consumes l self (clock st) level msg newLine (world st) \<longrightarrow>
    (\<exists>st'. print env self level msg newLine st = Inr st' \<and> printers st' = printers st))"
proof -
  have empty: "handlers l = [] \<longrightarrow> handled l log w = (False, w)"
    by (simp add: handled_def)
  have first: "fst (handled l log w) \<longleftrightarrow>
      (\<exists>pre h post wp wh. handlers l = pre @ h # post \<and>
         handled_range pre log w = (False, wp) \<and> h log wp = (True, wh))"
  proof
    assume "fst (handled l log w)"
    then have "fst (handled_range (handlers l) log w)" by (simp add: handled_def)
    from handled_range_split[OF this] show
      "\<exists>pre h post wp wh. handlers l = pre @ h # post \<and>
         handled_range pre log w = (False, wp) \<and> h log wp = (True, wh)"
      by blast
  next
    assume "\<exists>pre h post wp wh. handlers l = pre @ h # post \<and>
         handled_range pre log w = (False, wp) \<and> h log wp = (True, wh)"
    then obtain pre h post wp wh where "handlers l = pre @ h # post"
      and "handled_range pre log w = (False, wp)" and "h log wp = (True, wh)"
      by blast
    then show "fst (handled l log w)"
      using handled_range_stop[of pre log w wp h wh post] by (simp add: handled_def)
  qed
  have stop: "handlers l = pre @ h # post \<and> handled_range pre log w = (False, wp) \<and>
      h log wp = (True, wh) \<longrightarrow> handled l log w = (True, wh)"
    using handled_range_stop[of pre log w wp h wh post] by (simp add: handled_def)
  have journal_stop: "handlers lj = traced_chain (npre @ (i, h) # npost) \<and>
      handled_range (map snd npre) log w = (False, wp) \<and> h log wp = (True, wh) \<longrightarrow>
    handled lj log (w, js) = (True, (wh, js @ map fst npre @ [i]))"
    using traced_chain_stop[of npre log w wp h wh i npost js] by (simp add: handled_def)
  have journal_all: "handlers lj = traced_chain named \<and>
      handled_range (map snd named) log w = (False, w') \<longrightarrow>
    handled lj log (w, js) = (False, (w', js @ map fst named))"
    using traced_chain_false[of named log w w' js] by (simp add: handled_def)
  have quiet: "deref (loggers st) self = Some l \<and> wf_logger st self \<and>
      level \<le> Logger.Level l \<and>
      consumes l self (clock st) level msg newLine (world st) \<longrightarrow>
    (\<exists>st'. print env self level msg newLine st = Inr st' \<and> printers st' = printers st)"
    using print_consumed[of st self l level msg newLine env] by blast
  from empty first stop journal_stop journal_all quiet show ?thesis by blast
qed

theorem C2_handler_short_circuit_witness:
  "handlers (sample_logger InfoLevel (traced_chain [(1::nat, decline), (2, accept), (3, accept)])
      :: (unit \<times> nat list) Logger) =
     traced_chain ([(1, decline)] @ (2, accept) # [(3, accept)]) \<and>
   handled_range (map snd [(1::nat, decline)])
     \<lparr>Logger = 0, NewLine = True, Time = 7, Level = InfoLevel, Message = ''ready''\<rparr> () =
     (False, ()) \<and>
   accept \<lparr>Logger = 0, NewLine = True, Time = 7, Level = InfoLevel, Message = ''ready''\<rparr> () =
     (True, ()) \<and>
   handled (sample_logger InfoLevel (traced_chain [(1::nat, decline), (2, accept), (3, accept)]))
     \<lparr>Logger = 0, NewLine = True, Time = 7, Level = InfoLevel, Message = ''ready''\<rparr> ((), []) =
     (True, ((), [1, 2])) \<and>
   deref (loggers (sample_state InfoLevel [decline, accept] ())) 0 =
     Some (sample_logger InfoLevel [decline, accept]) \<and>
   wf_logger (sample_state InfoLevel [decline, accept] ()) 0 \<and>
   InfoLevel \<le> Logger.Level (sample_logger InfoLevel [decline, accept] :: unit Logger) \<and>
   consumes (sample_logger InfoLevel [decline, accept]) 0 7 InfoLevel ''ready'' True () \<and>
   (\<exists>st'. print sample_env 0 InfoLevel ''ready'' True
            (sample_state InfoLevel [decline, accept] ()) = Inr st' \<and>
      sink st' 0 = [])"
proof -
  let ?log = "\<lparr>Logger = 0, NewLine = True, Time = 7, Level = InfoLevel, Message = ''ready''\<rparr>"
  let ?named = "[(1::nat, decline), (2, accept), (3, accept)] :: (nat \<times> unit Handler) list"
  let ?lj = "sample_logger InfoLevel (traced_chain ?named) :: (unit \<times> nat list) Logger"
  let ?l = "sample_logger InfoLevel [decline, accept] :: unit Logger"
  let ?st = "sample_state InfoLevel [decline, accept] () :: unit state"
  have j1: "handlers ?lj = traced_chain ([(1, decline)] @ (2, accept) # [(3, accept)])"
    by (simp add: sample_logger_def)
  have j2: "handled_range (map snd [(1::nat, decline :: unit Handler)]) ?log () = (False, ())"
    by (simp add: decline_def)
  have j3: "(accept :: unit Handler) ?log () = (True, ())"
    by (simp add: accept_def)
  have p1: "deref (loggers ?st) 0 = Some ?l"
    by (simp add: sample_state_def deref_def)
  have p2: "wf_logger ?st 0"
    by (simp add: wf_logger_def sample_state_def sample_logger_def deref_def)
  have p3: "InfoLevel \<le> Logger.Level ?l"
    by (simp add: sample_logger_def)
  have p4: "consumes ?l 0 (clock ?st) InfoLevel ''ready'' True (world ?st)"
    by (simp add: consumes_def handled_def sample_logger_def decline_def accept_def)
  have env: "clock ?st = 7" "world ?st = ()"
    by (simp_all add: sample_state_def)
  note inst = C2_handler_short_circuit[where lj = ?lj and npre = "[(1, decline)]" and i = 2
      and h = accept and npost = "[(3, accept)]" and log = ?log and w = "()" and wp = "()"
      and wh = "()" and js = "[]" and l = ?l and st = ?st and self = 0
      and level = InfoLevel and msg = "''ready''" and newLine = True and env = sample_env]
  from inst j1 j2 j3 have journal: "handled ?lj ?log ((), []) = (True, ((), [1, 2]))"
    by simp
  from inst p1 p2 p3 p4 obtain st' where
    r: "print sample_env 0 InfoLevel ''ready'' True ?st = Inr st'" and "printers st' = printers ?st"
    by blast
  then have "sink st' 0 = []"
    by (simp add: sink_def deref_def sample_state_def)
  with r have "\<exists>st'. print sample_env 0 InfoLevel ''ready'' True ?st = Inr st' \<and> sink st' 0 = []"
    by blast
  with j1 j2 j3 journal p1 p2 p3 p4 show ?thesis
    by (simp add: env)
qed

subsection \<open>Cloning\<close>

lemma deref_Some: "deref xs a = Some x \<longleftrightarrow> a < length xs \<and> xs ! a = x"
  by (auto simp: deref_def)

lemma Clone_result:
  assumes "deref (loggers st) self = Some l"
  shows "Clone self st =
     Inr (length (loggers st),
          st\<lparr>maps := maps st @ [\<lparr>Items = Map.empty\<rparr>],
             loggers := loggers st @
               [\<lparr>Prefix = Prefix l, Level = Logger.Level l, TimeFormat = TimeFormat l,
                 mu = False, Printer = Printer l, handlers = handlers l, once = False,
                 logs = [], children = length (maps st)\<rparr>]\<rparr>)"
  using assms by (simp add: Clone_def newLoggerMap_def)

lemma SetPrefix_result:
  assumes "deref (loggers st) self = Some l" and "\<not> mu l"
  shows "SetPrefix self s st = Inr (st\<lparr>loggers := (loggers st)[self := l\<lparr>Prefix := s\<rparr>]\<rparr>)"
proof -
  from assms(2) have eq: "l\<lparr>Prefix := s, mu := False\<rparr> = l\<lparr>Prefix := s\<rparr>"
    by (cases l) simp
  from assms have "SetPrefix self s st =
      Inr (st\<lparr>loggers := (loggers st)[self := l\<lparr>Prefix := s, mu := False\<rparr>]\<rparr>)"
    by (simp add: SetPrefix_def Let_def)
  then show ?thesis unfolding eq .
qed

lemma SetPrefix_held:
  assumes "deref (loggers st) self = Some l" and "mu l"
  shows "SetPrefix self s st = Inl Deadlock"
  using assms by (simp add: SetPrefix_def)

text \<open>
  C7. \<^verbatim>\<open>Clone\<close> of a logger returns a new object \<open>c\<close>, at an address that held no
  logger before and differs from the parent's, and leaves the parent as it was. The clone
  starts with the parent's \<^verbatim>\<open>Prefix\<close>, \<^verbatim>\<open>Level\<close>, \<^verbatim>\<open>TimeFormat\<close>, \<^verbatim>\<open>Printer\<close>
  and handler chain; its mutex is not held and its one-shot guard has not fired, whatever
  the parent's are; its pool is empty and its child registry is a new, empty one.
  \<^verbatim>\<open>SetPrefix\<close> on the clone always returns (its mutex is its own), sets the clone's
  prefix and leaves the parent unchanged; \<^verbatim>\<open>SetPrefix\<close> on the parent, which returns
  unless the parent's mutex is held, sets the parent's prefix and leaves the clone
  unchanged.
\<close>

theorem C7_clone_independence:
  assumes "deref (loggers st) self = Some l"
  shows "\<exists>c st1 cl.
     Clone self st = Inr (c, st1) \<and> c \<noteq> self \<and> deref (loggers st) c = None \<and>
     deref (loggers st1) self = Some l \<and> deref (loggers st1) c = Some cl \<and>
     Prefix cl = Prefix l \<and> Logger.Level cl = Logger.Level l \<and>
     TimeFormat cl = TimeFormat l \<and> Printer cl = Printer l \<and> handlers cl = handlers l \<and>
     mu cl = False \<and> once cl = False \<and> logs cl = [] \<and>
     deref (maps st) (children cl) = None \<and>
     deref (maps st1) (children cl) = Some \<lparr>Items = Map.empty\<rparr> \<and>
     (\<forall>s. \<exists>st2. SetPrefix c s st1 = Inr st2 \<and>
        deref (loggers st2) c = Some (cl\<lparr>Prefix := s\<rparr>) \<and>
        deref (loggers st2) self = Some l) \<and>
     (\<forall>s. if mu l then SetPrefix self s st1 = Inl Deadlock
          else \<exists>st2. SetPrefix self s st1 = Inr st2 \<and>
                 deref (loggers st2) self = Some (l\<lparr>Prefix := s\<rparr>) \<and>
                 deref (loggers st2) c = Some cl)"
proof -
  let ?c = "length (loggers st)"
  let ?cl = "\<lparr>Prefix = Prefix l, Level = Logger.Level l, TimeFormat = TimeFormat l,
              mu = False, Printer = Printer l, handlers = handlers l, once = False,
              logs = [], children = length (maps st)\<rparr>"
  let ?st1 = "st\<lparr>maps := maps st @ [\<lparr>Items = Map.empty\<rparr>], loggers := loggers st @ [?cl]\<rparr>"
  from assms have lt: "self < ?c" and at: "loggers st ! self = l"
    by (simp_all add: deref_Some)
  have clone: "Clone self st = Inr (?c, ?st1)"
    using Clone_result[OF assms] .
  have parent1: "deref (loggers ?st1) self = Some l"
    using lt at by (simp add: deref_def nth_append)
  have child1: "deref (loggers ?st1) ?c = Some ?cl"
    by (simp add: deref_def)
  have fresh: "deref (loggers st) ?c = None" "deref (maps st) (children ?cl) = None"
    by (simp_all add: deref_def)
  have registry: "deref (maps ?st1) (children ?cl) = Some \<lparr>Items = Map.empty\<rparr>"
    by (simp add: deref_def)
  have child_set: "\<exists>st2. SetPrefix ?c s ?st1 = Inr st2 \<and>
        deref (loggers st2) ?c = Some (?cl\<lparr>Prefix := s\<rparr>) \<and>
        deref (loggers st2) self = Some l" for s
  proof -
    have "\<not> mu ?cl" by simp
    from SetPrefix_result[OF child1 this, of s] lt at show ?thesis
      by (simp add: deref_def nth_append)
  qed
  have parent_set: "if mu l then SetPrefix self s ?st1 = Inl Deadlock
          else \<exists>st2. SetPrefix self s ?st1 = Inr st2 \<and>
                 deref (loggers st2) self = Some (l\<lparr>Prefix := s\<rparr>) \<and>
                 deref (loggers st2) ?c = Some ?cl" for s
  proof (cases "mu l")
    case True
    then show ?thesis using SetPrefix_held[OF parent1 True] by simp
  next
    case False
    from SetPrefix_result[OF parent1 False, of s] lt False show ?thesis
      by (simp add: deref_def nth_append list_update_append)
  qed
  have "Clone self st = Inr (?c, ?st1) \<and> ?c \<noteq> self \<and> deref (loggers st) ?c = None \<and>
     deref (loggers ?st1) self = Some l \<and> deref (loggers ?st1) ?c = Some ?cl \<and>
     Prefix ?cl = Prefix l \<and> Logger.Level ?cl = Logger.Level l \<and>
     TimeFormat ?cl = TimeFormat l \<and> Printer ?cl = Printer l \<and> handlers ?cl = handlers l \<and>
     mu ?cl = False \<and> once ?cl = False \<and> logs ?cl = [] \<and>
     deref (maps st) (children ?cl) = None \<and>
     deref (maps ?st1) (children ?cl) = Some \<lparr>Items = Map.empty\<rparr> \<and>
     (\<forall>s. \<exists>st2. SetPrefix ?c s ?st1 = Inr st2 \<and>
        deref (loggers st2) ?c = Some (?cl\<lparr>Prefix := s\<rparr>) \<and>
        deref (loggers st2) self = Some l) \<and>
     (\<forall>s. if mu l then SetPrefix self s ?st1 = Inl Deadlock
          else \<exists>st2. SetPrefix self s ?st1 = Inr st2 \<and>
                 deref (loggers st2) self = Some (l\<lparr>Prefix := s\<rparr>) \<and>
                 deref (loggers st2) ?c = Some ?cl)"
    using clone lt parent1 child1 fresh registry child_set parent_set
    by (intro conjI allI) simp_all
  then show ?thesis by blast
qed

theorem C7_clone_independence_witness:
  "deref (loggers (sample_state InfoLevel [] ())) 0 = Some (sample_logger InfoLevel []) \<and>
   (\<exists>st1. Clone 0 (sample_state InfoLevel [] ()) = Inr (1, st1) \<and>
      map_option Prefix (deref (loggers st1) 1) = Some ''svc: '' \<and>
      (\<exists>st2. SetPrefix 1 ''db: '' st1 = Inr st2 \<and>
         map_option Prefix (deref (loggers st2) 0) = Some ''svc: '' \<and>
         map_option Prefix (deref (loggers st2) 1) = Some ''db: '') \<and>
      (\<exists>st2. SetPrefix 0 ''api: '' st1 = Inr st2 \<and>
         map_option Prefix (deref (loggers st2) 0) = Some ''api: '' \<and>
         map_option Prefix (deref (loggers st2) 1) = Some ''svc: ''))"
proof -
  let ?st = "sample_state InfoLevel [] () :: unit state"
  let ?l = "sample_logger InfoLevel [] :: unit Logger"
  have h: "deref (loggers ?st) 0 = Some ?l"
    by (simp add: sample_state_def deref_def)
  have free: "\<not> mu ?l" and pre: "Prefix ?l = ''svc: ''"
    by (simp_all add: sample_logger_def)
  from C7_clone_independence[OF h] obtain c st1 cl where
    clone: "Clone 0 ?st = Inr (c, st1)"
    and cl: "deref (loggers st1) c = Some cl" "Prefix cl = Prefix ?l"
    and child_set: "\<And>s. \<exists>st2. SetPrefix c s st1 = Inr st2 \<and>
        deref (loggers st2) c = Some (cl\<lparr>Prefix := s\<rparr>) \<and>
        deref (loggers st2) 0 = Some ?l"
    and parent_set: "\<And>s. if mu ?l then SetPrefix 0 s st1 = Inl Deadlock
          else \<exists>st2. SetPrefix 0 s st1 = Inr st2 \<and>
                 deref (loggers st2) 0 = Some (?l\<lparr>Prefix := s\<rparr>) \<and>
                 deref (loggers st2) c = Some cl"
    by blast
  from clone have c: "c = 1"
    unfolding Clone_result[OF h] by (simp add: sample_state_def)
  have a: "map_option Prefix (deref (loggers st1) 1) = Some ''svc: ''"
    using cl c pre by simp
  have b: "\<exists>st2. SetPrefix 1 ''db: '' st1 = Inr st2 \<and>
         map_option Prefix (deref (loggers st2) 0) = Some ''svc: '' \<and>
         map_option Prefix (deref (loggers st2) 1) = Some ''db: ''"
    using child_set[of "''db: ''"] c pre by auto
  have d: "\<exists>st2. SetPrefix 0 ''api: '' st1 = Inr st2 \<and>
         map_option Prefix (deref (loggers st2) 0) = Some ''api: '' \<and>
         map_option Prefix (deref (loggers st2) 1) = Some ''svc: ''"
    using parent_set[of "''api: ''"] free c cl pre by auto
  from clone c a b d have "\<exists>st1. Clone 0 ?st = Inr (1, st1) \<and>
      map_option Prefix (deref (loggers st1) 1) = Some ''svc: '' \<and>
      (\<exists>st2. SetPrefix 1 ''db: '' st1 = Inr st2 \<and>
         map_option Prefix (deref (loggers st2) 0) = Some ''svc: '' \<and>
         map_option Prefix (deref (loggers st2) 1) = Some ''db: '') \<and>
      (\<exists>st2. SetPrefix 0 ''api: '' st1 = Inr st2 \<and>
         map_option Prefix (deref (loggers st2) 0) = Some ''api: '' \<and>
         map_option Prefix (deref (loggers st2) 1) = Some ''svc: '')"
    by (intro exI[of _ st1]) simp
  with h show ?thesis by simp
qed

subsection \<open>The child registry\<close>

lemma getOrAdd_derive_empty:
  assumes "deref (loggers st) parent = Some l"
  shows "getOrAdd_derive [] parent st = Inl IndexOutOfRange"
  unfolding getOrAdd_derive_def Clone_result[OF assms] by simp

lemma getOrAdd_derive_result:
  assumes "deref (loggers st) parent = Some l" and "name \<noteq> []"
  shows "getOrAdd_derive name parent st =
     Inr (length (loggers st),
          st\<lparr>maps := maps st @ [\<lparr>Items = Map.empty\<rparr>],
             loggers := loggers st @
               [\<lparr>Prefix = (if last name \<noteq> CHR '' '' then name @ '': '' else name),
                 Level = Logger.Level l, TimeFormat = TimeFormat l,
                 mu = False, Printer = Printer l, handlers = handlers l, once = False,
                 logs = [], children = length (maps st)\<rparr>]\<rparr>)"
proof -
  from assms(2) have lb: "name ! (length name - Suc 0) = last name"
    by (simp add: last_conv_nth)
  show ?thesis
    unfolding getOrAdd_derive_def Clone_result[OF assms(1)]
    using assms(2) by (simp add: lb SetPrefix_def deref_def Let_def)
qed

lemma Child_empty:
  assumes "deref (loggers st) self = Some l"
    and "deref (maps st) (children l) = Some lm"
    and "Items lm [] = None"
  shows "Child self [] st = Inl IndexOutOfRange"
  using assms
  by (simp add: Child_def getOrAdd_def getOrAdd_lookup_def getOrAdd_derive_empty[OF assms(1)])

lemma Child_first:
  assumes "deref (loggers st) self = Some l"
    and "deref (maps st) (children l) = Some lm"
    and "Items lm name = None"
    and "name \<noteq> []"
  shows "Child self name st =
     Inr (length (loggers st),
          st\<lparr>maps := (maps st @ [\<lparr>Items = Map.empty\<rparr>])
                      [children l := lm\<lparr>Items := (Items lm)(name \<mapsto> length (loggers st))\<rparr>],
             loggers := loggers st @
               [\<lparr>Prefix = (if last name \<noteq> CHR '' '' then name @ '': '' else name),
                 Level = Logger.Level l, TimeFormat = TimeFormat l,
                 mu = False, Printer = Printer l, handlers = handlers l, once = False,
                 logs = [], children = length (maps st)\<rparr>]\<rparr>)"
proof -
  from assms(2) have m: "children l < length (maps st)" "maps st ! children l = lm"
    by (auto simp: deref_def split: if_splits)
  show ?thesis
    using assms(1-3) m
    by (simp add: Child_def getOrAdd_def getOrAdd_lookup_def
        getOrAdd_derive_result[OF assms(1,4)] getOrAdd_insert_def deref_def nth_append)
qed

text \<open>A later request of a name finds the stored logger and changes nothing.\<close>

lemma Child_again:
  assumes "deref (loggers st) self = Some l"
    and "deref (maps st) (children l) = Some lm"
    and "Items lm name = Some c"
  shows "Child self name st = Inr (c, st)"
  using assms by (simp add: Child_def getOrAdd_def getOrAdd_lookup_def)

text \<open>
  C9. When the registry of a logger has no entry for the empty name, \<^verbatim>\<open>Child("")\<close>
  returns no logger: the derivation reads the byte at index \<^verbatim>\<open>len(prefix)-1\<close> of the
  empty name and the call ends in an index-out-of-range panic.
\<close>

theorem C9_child_empty_name:
  assumes "deref (loggers st) self = Some l"
    and "deref (maps st) (children l) = Some lm"
    and "Items lm [] = None"
  shows "Child self [] st = Inl IndexOutOfRange \<and> (\<forall>c st'. Child self [] st \<noteq> Inr (c, st'))"
  using Child_empty[OF assms] by simp

theorem C9_child_empty_name_witness:
  "deref (loggers (sample_state InfoLevel [] ())) 0 = Some (sample_logger InfoLevel []) \<and>
   deref (maps (sample_state InfoLevel [] ())) (children (sample_logger InfoLevel [] :: unit Logger)) =
     Some \<lparr>Items = Map.empty\<rparr> \<and>
   Items \<lparr>Items = Map.empty\<rparr> [] = (None :: addr option) \<and>
   Child 0 [] (sample_state InfoLevel [] ()) = Inl IndexOutOfRange"
proof -
  let ?st = "sample_state InfoLevel [] () :: unit state"
  let ?l = "sample_logger InfoLevel [] :: unit Logger"
  have h1: "deref (loggers ?st) 0 = Some ?l"
    by (simp add: sample_state_def deref_def)
  have h2: "deref (maps ?st) (children ?l) = Some \<lparr>Items = Map.empty\<rparr>"
    by (simp add: sample_state_def sample_logger_def deref_def)
  have h3: "Items \<lparr>Items = Map.empty\<rparr> [] = (None :: addr option)"
    by simp
  from C9_child_empty_name[OF h1 h2 h3] h1 h2 show ?thesis by simp
qed

text \<open>
  What the code does on the first request of a name that is not empty: the child is
  stored under the name, and its prefix is the name followed by \<^verbatim>\<open>": "\<close> unless the last
  byte of the name is the space character.
\<close>

lemma Child_first_prefix:
  assumes "deref (loggers st) self = Some l"
    and "deref (maps st) (children l) = Some lm"
    and "Items lm name = None"
    and "name \<noteq> []"
  shows "\<exists>c st' cl lm'.
     Child self name st = Inr (c, st') \<and>
     deref (maps st') (children l) = Some lm' \<and> Items lm' name = Some c \<and>
     deref (loggers st') c = Some cl \<and>
     Prefix cl = (if last name = CHR '' '' then name else name @ '': '')"
proof -
  from assms(2) have m: "children l < length (maps st)"
    by (auto simp: deref_def split: if_splits)
  show ?thesis
    unfolding Child_first[OF assms] using m
    by (simp add: deref_def nth_append)
qed

text \<open>
  C6. The claim: on the first request of a name, the stored child's prefix is the name
  followed by \<^verbatim>\<open>": "\<close> when the name does not end in whitespace, and the unchanged name
  when it does. The comment above the test in \<^verbatim>\<open>getOrAdd\<close> says the same (the separator
  is added if the prefix does not end with a whitespace), and the test compares the last
  byte with the space character only. On the code the claim holds of the names \<^verbatim>\<open>db\<close>
  and \<^verbatim>\<open>db\<close> followed by a space, and fails on \<^verbatim>\<open>db\<close> followed by a tab: the name
  ends in whitespace, the prefix should be the unchanged name, and the child's prefix is
  the name followed by \<^verbatim>\<open>": "\<close>.
\<close>

theorem C6_child_prefix_whitespace:
  "ends_in_whitespace (''db'' @ [CHR 0x09]) \<and>
   child_prefix_spec (''db'' @ [CHR 0x09]) = ''db'' @ [CHR 0x09] \<and>
   prefix_of_result (Child 0 (''db'' @ [CHR 0x09]) (sample_state InfoLevel [] ())) =
     Inr (''db'' @ [CHR 0x09] @ '': '') \<and>
   prefix_of_result (Child 0 (''db'' @ [CHR 0x09]) (sample_state InfoLevel [] ())) \<noteq>
     Inr (child_prefix_spec (''db'' @ [CHR 0x09])) \<and>
   prefix_of_result (Child 0 ''db'' (sample_state InfoLevel [] ())) =
     Inr (child_prefix_spec ''db'') \<and>
   child_prefix_spec ''db'' = ''db: '' \<and>
   prefix_of_result (Child 0 ''db '' (sample_state InfoLevel [] ())) =
     Inr (child_prefix_spec ''db '') \<and>
   child_prefix_spec ''db '' = ''db ''"
  by (simp add: ends_in_whitespace_def isSpace_def child_prefix_spec_def prefix_of_result_def
      Child_def getOrAdd_def getOrAdd_lookup_def getOrAdd_derive_def getOrAdd_insert_def
      Clone_def newLoggerMap_def SetPrefix_def deref_def sample_state_def sample_logger_def
      Let_def)

subsection \<open>The formatter\<close>

lemma render_spec_message:
  "message \<noteq> [] \<Longrightarrow>
   render_spec prefix tag timestamp message = prefix @ spaced tag @ spaced timestamp @ message"
  by (simp add: render_spec_def spaced_def)

text \<open>
  C3, as amended. For a record whose owning logger is \<open>owner\<close>, \<^verbatim>\<open>logHijacker\<close> renders
  the prefix of \<open>owner\<close>, raw and with no separator of its own, then the level tag
  followed by one space when the tag is not empty, then the timestamp followed by one
  space when it is not empty, then the message. When the message is not empty this is the
  line of the specification: one space between adjacent non-empty fields and no trailing
  space. The tag is omitted for the level-less tier and the timestamp when
  \<^verbatim>\<open>TimeFormat\<close> is empty. With prefix \<^verbatim>\<open>svc: \<close>, empty \<^verbatim>\<open>TimeFormat\<close>, level Info
  on a sink that is not colour-capable and message \<^verbatim>\<open>ready\<close>, the line is
  \<^verbatim>\<open>svc: INFO ready\<close>.
\<close>

theorem C3_formatter:
  assumes "deref (loggers st) (Logger log) = Some owner"
  shows
    "logHijacker env st printer log =
       Inr (Prefix owner @ spaced (GetTextForLevel env (Log.Level log) (IsTerminal printer)) @
            spaced (FormatTime env owner log) @ Message log) \<and>
     (Message log \<noteq> [] \<longrightarrow>
        logHijacker env st printer log =
          Inr (render_spec (Prefix owner)
                 (GetTextForLevel env (Log.Level log) (IsTerminal printer))
                 (FormatTime env owner log) (Message log))) \<and>
     (Log.Level log = DisableLevel \<longrightarrow>
        logHijacker env st printer log =
          Inr (Prefix owner @ spaced (FormatTime env owner log) @ Message log)) \<and>
     (TimeFormat owner = [] \<longrightarrow>
        logHijacker env st printer log =
          Inr (Prefix owner @ spaced (GetTextForLevel env (Log.Level log) (IsTerminal printer)) @
               Message log)) \<and>
     (Prefix owner = ''svc: '' \<and> TimeFormat owner = [] \<and> Log.Level log = InfoLevel \<and>
      \<not> IsTerminal printer \<and> Message log = ''ready'' \<longrightarrow>
        logHijacker env st printer log = Inr ''svc: INFO ready'')"
proof -
  have closed: "logHijacker env st printer log =
       Inr (Prefix owner @ spaced (GetTextForLevel env (Log.Level log) (IsTerminal printer)) @
            spaced (FormatTime env owner log) @ Message log)"
    using logHijacker_rendered[OF assms] by (simp add: rendered_def)
  have joined: "Message log \<noteq> [] \<longrightarrow>
        logHijacker env st printer log =
          Inr (render_spec (Prefix owner)
                 (GetTextForLevel env (Log.Level log) (IsTerminal printer))
                 (FormatTime env owner log) (Message log))"
    using closed by (simp add: render_spec_message)
  have untagged: "Log.Level log = DisableLevel \<longrightarrow>
        logHijacker env st printer log =
          Inr (Prefix owner @ spaced (FormatTime env owner log) @ Message log)"
    using closed
    by (simp add: GetTextForLevel_def levelTag_def spaced_def DisableLevel_def ErrorLevel_def
        WarnLevel_def InfoLevel_def DebugLevel_def)
  have untimed: "TimeFormat owner = [] \<longrightarrow>
        logHijacker env st printer log =
          Inr (Prefix owner @ spaced (GetTextForLevel env (Log.Level log) (IsTerminal printer)) @
               Message log)"
    using closed by (simp add: FormatTime_def spaced_def)
  have example: "Prefix owner = ''svc: '' \<and> TimeFormat owner = [] \<and> Log.Level log = InfoLevel \<and>
      \<not> IsTerminal printer \<and> Message log = ''ready'' \<longrightarrow>
        logHijacker env st printer log = Inr ''svc: INFO ready''"
    using closed
    by (simp add: GetTextForLevel_def levelTag_def FormatTime_def spaced_def ErrorLevel_def
        WarnLevel_def InfoLevel_def)
  from closed joined untagged untimed example show ?thesis by blast
qed

theorem C3_formatter_witness:
  "deref (loggers (sample_state InfoLevel [] ()))
     (Logger \<lparr>Logger = 0, NewLine = True, Time = 7, Level = InfoLevel, Message = ''ready''\<rparr>) =
     Some (sample_logger InfoLevel []) \<and>
   Prefix (sample_logger InfoLevel [] :: unit Logger) = ''svc: '' \<and>
   TimeFormat (sample_logger InfoLevel [] :: unit Logger) = [] \<and>
   Log.Level \<lparr>Logger = 0, NewLine = True, Time = 7, Level = InfoLevel, Message = ''ready''\<rparr> =
     InfoLevel \<and>
   \<not> IsTerminal \<lparr>IsTerminal = False, Output = []\<rparr> \<and>
   Message \<lparr>Logger = 0, NewLine = True, Time = 7, Level = InfoLevel, Message = ''ready''\<rparr> =
     ''ready'' \<and>
   logHijacker sample_env (sample_state InfoLevel [] ()) \<lparr>IsTerminal = False, Output = []\<rparr>
     \<lparr>Logger = 0, NewLine = True, Time = 7, Level = InfoLevel, Message = ''ready''\<rparr> =
     Inr ''svc: INFO ready''"
proof -
  let ?st = "sample_state InfoLevel [] () :: unit state"
  let ?l = "sample_logger InfoLevel [] :: unit Logger"
  let ?log = "\<lparr>Logger = 0, NewLine = True, Time = 7, Level = InfoLevel, Message = ''ready''\<rparr>"
  let ?p = "\<lparr>IsTerminal = False, Output = []\<rparr>"
  have h: "deref (loggers ?st) (Logger ?log) = Some ?l"
    by (simp add: sample_state_def deref_def)
  have facts: "Prefix ?l = ''svc: ''" "TimeFormat ?l = []" "Log.Level ?log = InfoLevel"
    "\<not> IsTerminal ?p" "Message ?log = ''ready''"
    by (simp_all add: sample_logger_def)
  from C3_formatter[OF h, of sample_env ?p] facts
  have "logHijacker sample_env ?st ?p ?log = Inr ''svc: INFO ready''"
    by blast
  with h facts show ?thesis by simp
qed

text \<open>
  C3, as stated, fails on an empty message: \<^verbatim>\<open>Info()\<close> with no operand on a logger with
  prefix \<^verbatim>\<open>svc: \<close> and no time format writes \<^verbatim>\<open>svc: INFO\<close> followed by a space, where
  the specification's line has no trailing space.
\<close>

theorem C3_formatter_counterexample:
  "logHijacker sample_env (sample_state InfoLevel [] ()) \<lparr>IsTerminal = False, Output = []\<rparr>
     \<lparr>Logger = 0, NewLine = True, Time = 7, Level = InfoLevel, Message = []\<rparr> =
     Inr ''svc: INFO '' \<and>
   render_spec ''svc: '' (GetTextForLevel sample_env InfoLevel False) [] [] = ''svc: INFO'' \<and>
   logHijacker sample_env (sample_state InfoLevel [] ()) \<lparr>IsTerminal = False, Output = []\<rparr>
     \<lparr>Logger = 0, NewLine = True, Time = 7, Level = InfoLevel, Message = []\<rparr> \<noteq>
     Inr (render_spec ''svc: '' (GetTextForLevel sample_env InfoLevel False) [] []) \<and>
   sink_of_result (Info sample_env 0 [] (sample_state InfoLevel [] ())) 0 =
     [WriteLine ''svc: INFO '']"
  by (simp add: logHijacker_def render_spec_def sink_of_result_def sink_def
      Info_def Log_def print_def acquireLog_def pool_Get_def pool_Put_def releaseLog_def
      handled_def Printer_Println_def GetTextForLevel_def levelTag_def FormatTime_def
      deref_def sample_state_def sample_logger_def sample_env_def Let_def
      InfoLevel_def ErrorLevel_def WarnLevel_def)

subsection \<open>Concurrent first requests of a child\<close>

text \<open>One caller alone: its three steps are \<^verbatim>\<open>getOrAdd\<close>.\<close>

lemma getOrAdd_three_steps:
  "(case run_callers m name parent [CallerA, CallerA, CallerA] (AtLookup, b, st) of
      (a', b', st') \<Rightarrow> outcome a' st') = Some (getOrAdd m name parent st)"
  by (auto simp: getOrAdd_def getOrAdd_step_def outcome_def getOrAdd_insert_def
      split: sum.splits option.splits prod.splits)

text \<open>
  The race, from any state: when both callers look the name up before either inserts,
  both miss, each derives a logger of its own, and the second insertion replaces the
  first.
\<close>

lemma race_general:
  assumes "deref (loggers st) parent = Some l"
    and "deref (maps st) m = Some lm"
    and "Items lm name = None"
    and "name \<noteq> []"
  shows "\<exists>st'. run_callers m name parent
             [CallerA, CallerB, CallerA, CallerA, CallerB, CallerB] (AtLookup, AtLookup, st) =
           (Returned (length (loggers st)), Returned (Suc (length (loggers st))), st') \<and>
         stored st' m name = Some (Suc (length (loggers st)))"
proof -
  from assms(1) have p: "parent < length (loggers st)" "loggers st ! parent = l"
    by (auto simp: deref_def split: if_splits)
  from assms(2) have r: "m < length (maps st)" "maps st ! m = lm"
    by (auto simp: deref_def split: if_splits)
  show ?thesis
    using p r assms(3,4)
    by (simp add: getOrAdd_step_def getOrAdd_lookup_def getOrAdd_derive_def getOrAdd_insert_def
        Clone_def newLoggerMap_def SetPrefix_def deref_def stored_def Let_def nth_append)
qed

text \<open>
  C4. The claim: concurrent first requests of one name on one parent all receive a single
  stored logger. On the code it fails. On a logger with no child \<^verbatim>\<open>db\<close>, when caller A
  and caller B both run the lookup before either runs the insertion, A returns logger 1
  and B returns logger 2, and the registry ends with logger 2 under \<^verbatim>\<open>db\<close>: two
  distinct instances are handed out and the last writer wins. When A finishes before B
  starts, both return logger 1.
\<close>

theorem C4_concurrent_first_requests:
  "fst (run_callers 0 ''db'' 0 [CallerA, CallerB, CallerA, CallerA, CallerB, CallerB]
          (AtLookup, AtLookup, sample_state InfoLevel [] ())) = Returned 1 \<and>
   fst (snd (run_callers 0 ''db'' 0 [CallerA, CallerB, CallerA, CallerA, CallerB, CallerB]
          (AtLookup, AtLookup, sample_state InfoLevel [] ()))) = Returned 2 \<and>
   stored (snd (snd (run_callers 0 ''db'' 0
          [CallerA, CallerB, CallerA, CallerA, CallerB, CallerB]
          (AtLookup, AtLookup, sample_state InfoLevel [] ())))) 0 ''db'' = Some 2 \<and>
   fst (run_callers 0 ''db'' 0 [CallerA, CallerA, CallerA, CallerB, CallerB, CallerB]
          (AtLookup, AtLookup, sample_state InfoLevel [] ())) = Returned 1 \<and>
   fst (snd (run_callers 0 ''db'' 0 [CallerA, CallerA, CallerA, CallerB, CallerB, CallerB]
          (AtLookup, AtLookup, sample_state InfoLevel [] ()))) = Returned 1"
  by (simp add: getOrAdd_step_def getOrAdd_lookup_def getOrAdd_derive_def getOrAdd_insert_def
      Clone_def newLoggerMap_def SetPrefix_def deref_def sample_state_def sample_logger_def
      stored_def Let_def)

subsection \<open>Well-formed loggers\<close>

text \<open>
  The hypothesis of well-formedness holds of the loggers the code builds: \<^verbatim>\<open>New\<close> and
  \<^verbatim>\<open>Clone\<close> return well-formed loggers, and \<^verbatim>\<open>print\<close> keeps a logger well formed.
\<close>

lemma New_wf: "New terminal st = (c, st') \<Longrightarrow> wf_logger st' c"
  by (auto simp: New_def newLoggerMap_def wf_logger_def deref_def Let_def)

lemma acquireLog_owned:
  "list_all (\<lambda>r. Logger r = self) (logs l) \<Longrightarrow>
   list_all (\<lambda>r. Logger r = self) (snd (pool_Get (logs l)))"
  by (cases "logs l") (simp_all add: pool_Get_def)

lemma print_wf:
  assumes wf: "wf_logger st self" and res: "print env self level msg newLine st = Inr st'"
  shows "wf_logger st' self"
proof -
  from wf obtain l where l: "deref (loggers st) self = Some l"
    by (auto simp: wf_logger_def split: option.splits)
  from wf l have p: "Printer l < length (printers st)"
    and owned: "list_all (\<lambda>r. Logger r = self) (logs l)"
    by (auto simp: wf_logger_def)
  from l have lt: "self < length (loggers st)"
    by (auto simp: deref_def split: if_splits)
  show ?thesis
  proof (cases "level \<le> Logger.Level l")
    case True
    have "Logger (fst (acquireLog self (clock st) level msg newLine l)) = self"
      using acquireLog_owner[OF owned] .
    with res p lt acquireLog_owned[OF owned] show ?thesis
      unfolding print_pass[OF l wf True]
      by (auto simp: wf_logger_def deref_def Let_def pool_Put_def)
  next
    case False
    with print_filtered[OF l False, of env msg newLine] res wf show ?thesis by simp
  qed
qed

lemma Clone_wf:
  assumes "wf_logger st self" and "Clone self st = Inr (c, st')"
  shows "wf_logger st' c \<and> wf_logger st' self"
proof -
  from assms(1) obtain l where l: "deref (loggers st) self = Some l"
    by (auto simp: wf_logger_def split: option.splits)
  from l have lt: "self < length (loggers st)" and at: "loggers st ! self = l"
    by (auto simp: deref_def split: if_splits)
  from assms lt at show ?thesis
    unfolding Clone_result[OF l]
    by (auto simp: wf_logger_def deref_def nth_append)
qed

end
